theory Spec2Isabelle
  imports Complex_Main
begin

section \<open>JavaScript values\<close>

text \<open>
  The loader and the converter are JavaScript. Their values are modelled as follows.
  A number is a finite value or one of the three non-finite values of IEEE 754; finite
  values are exact reals (rounding and overflow are not modelled, and the two zeros are
  identified: they are \<open>===\<close> to each other anyway). A composite value (object,
  array, function) is a reference into a heap and is compared by its address.
\<close>

datatype jsnum = Fin real | PInf | NInf | NaN

type_synonym addr = nat

datatype jsval = Undefined | Null | Bool bool | Num jsnum | Str string | Ref addr

datatype error = TypeError | MalformedSample string nat | EmptyTrajectoryWindow

subsection \<open>Arithmetic on numbers\<close>

fun jadd :: "jsnum \<Rightarrow> jsnum \<Rightarrow> jsnum" where
  "jadd NaN b = NaN"
| "jadd a NaN = NaN"
| "jadd (Fin x) (Fin y) = Fin (x + y)"
| "jadd PInf NInf = NaN"
| "jadd NInf PInf = NaN"
| "jadd PInf b = PInf"
| "jadd NInf b = NInf"
| "jadd (Fin x) b = b"

fun sign_of :: "jsnum \<Rightarrow> real" where
  "sign_of (Fin x) = sgn x"
| "sign_of PInf = 1"
| "sign_of NInf = - 1"
| "sign_of NaN = 0"

definition signed_inf :: "real \<Rightarrow> jsnum" where
  "signed_inf s = (if s = 0 then NaN else if 0 < s then PInf else NInf)"

text \<open>Division; a zero divisor is taken to be the positive zero.\<close>

fun jdiv :: "jsnum \<Rightarrow> jsnum \<Rightarrow> jsnum" where
  "jdiv NaN b = NaN"
| "jdiv a NaN = NaN"
| "jdiv (Fin x) (Fin y) = (if y = 0 then signed_inf (sgn x) else Fin (x / y))"
| "jdiv (Fin x) b = Fin 0"
| "jdiv a (Fin y) = signed_inf (sign_of a * (if y < 0 then - 1 else 1))"
| "jdiv a b = NaN"

text \<open>\<open>a < b\<close> on numbers: false as soon as one side is \<open>NaN\<close>.\<close>

fun jless :: "jsnum \<Rightarrow> jsnum \<Rightarrow> bool" where
  "jless NaN b = False"
| "jless a NaN = False"
| "jless (Fin x) (Fin y) = (x < y)"
| "jless a NInf = False"
| "jless NInf b = True"
| "jless PInf b = False"
| "jless (Fin x) PInf = True"

definition Math_max :: "jsnum \<Rightarrow> jsnum \<Rightarrow> jsnum" where
  "Math_max a b = (if a = NaN \<or> b = NaN then NaN else if jless a b then b else a)"

definition Math_min :: "jsnum \<Rightarrow> jsnum \<Rightarrow> jsnum" where
  "Math_min a b = (if a = NaN \<or> b = NaN then NaN else if jless b a then b else a)"

subsection \<open>Objects and the heap\<close>

text \<open>
  An object's own properties, in the order they were added (names that look like array
  indices are not put first, as \<open>Object.keys\<close> would).
\<close>

type_synonym props = "(string \<times> jsval) list"

text \<open>
  A heap cell is a plain object or an array; both carry named properties. Objects are
  ordinary and extensible (no accessors, proxies or frozen objects), and a plain object
  has no callable property of its own. An object has the prototype it is created with:
  \<open>Object.prototype\<close> for a plain object, \<open>Array.prototype\<close> for an array.
\<close>

datatype kind = Plain | Array "jsval list"

datatype cell = Cell kind props

type_synonym heap = "cell list"

text \<open>A reference outside the heap reads as an object without properties.\<close>

definition cell_at :: "heap \<Rightarrow> addr \<Rightarrow> cell" where
  "cell_at h a = (if a < length h then h ! a else Cell Plain [])"

definition alloc :: "cell \<Rightarrow> heap \<Rightarrow> addr \<times> heap" where
  "alloc c h = (length h, h @ [c])"

text \<open>\<open>o[key]\<close> on a property list: a missing property reads as \<open>undefined\<close>.\<close>

definition prop_get :: "props \<Rightarrow> string \<Rightarrow> jsval" where
  "prop_get ps key = (case map_of ps key of None \<Rightarrow> Undefined | Some v \<Rightarrow> v)"

text \<open>\<open>o[key] = v\<close>: an existing property keeps its place, a new one is added last.\<close>

fun prop_set :: "props \<Rightarrow> string \<Rightarrow> jsval \<Rightarrow> props" where
  "prop_set [] key v = [(key, v)]"
| "prop_set ((k, x) # ps) key v =
     (if k = key then (k, v) # ps else (k, x) # prop_set ps key v)"

text \<open>Array indices and their property names: \<open>a[1]\<close> is \<open>a['1']\<close>.\<close>

definition digit_char :: "nat \<Rightarrow> char" where
  "digit_char d = char_of (48 + d)"

function index_name :: "nat \<Rightarrow> string" where
  "index_name n = (if n < 10 then [digit_char n] else index_name (n div 10) @ [digit_char (n mod 10)])"
  by pat_completeness auto
termination
  by (relation "measure id") auto

definition digit_val :: "char \<Rightarrow> nat option" where
  "digit_val c = (let n = (of_char c :: nat) in if 48 \<le> n \<and> n \<le> 57 then Some (n - 48) else None)"

fun digits_val :: "string \<Rightarrow> nat \<Rightarrow> nat option" where
  "digits_val [] acc = Some acc"
| "digits_val (c # cs) acc =
     (case digit_val c of None \<Rightarrow> None | Some d \<Rightarrow> digits_val cs (10 * acc + d))"

text \<open>The index a property name stands for, if it is the canonical name of one.\<close>

definition index_of :: "string \<Rightarrow> nat option" where
  "index_of key =
     (if key = [] \<or> (hd key = CHR ''0'' \<and> tl key \<noteq> []) then None else digits_val key 0)"

text \<open>The own property \<open>key\<close> of a heap cell.\<close>

definition own_get :: "cell \<Rightarrow> string \<Rightarrow> jsval" where
  "own_get c key =
     (case c of
        Cell Plain ps \<Rightarrow> prop_get ps key
      | Cell (Array xs) ps \<Rightarrow>
          (case index_of key of
             Some i \<Rightarrow> if i < length xs then xs ! i else Undefined
           | None \<Rightarrow> if key = ''length'' then Num (Fin (real (length xs))) else prop_get ps key))"

text \<open>Whether a heap cell has the own property \<open>key\<close>.\<close>

definition has_own :: "cell \<Rightarrow> string \<Rightarrow> bool" where
  "has_own c key =
     (case c of
        Cell Plain ps \<Rightarrow> map_of ps key \<noteq> None
      | Cell (Array xs) ps \<Rightarrow>
          (case index_of key of
             Some i \<Rightarrow> i < length xs
           | None \<Rightarrow> key = ''length'' \<or> map_of ps key \<noteq> None))"

text \<open>
  \<open>v[key]\<close> and \<open>v.key\<close>: a \<open>TypeError\<close> on \<open>undefined\<close> and \<open>null\<close>; a string has
  its characters and its length; the other primitives have no property read here.
\<close>

definition get_prop :: "heap \<Rightarrow> jsval \<Rightarrow> string \<Rightarrow> error + jsval" where
  "get_prop h v key =
     (case v of
        Undefined \<Rightarrow> Inl TypeError
      | Null \<Rightarrow> Inl TypeError
      | Ref a \<Rightarrow> Inr (own_get (cell_at h a) key)
      | Str s \<Rightarrow>
          Inr (case index_of key of
                 Some i \<Rightarrow> if i < length s then Str [s ! i] else Undefined
               | None \<Rightarrow> if key = ''length'' then Num (Fin (real (length s))) else Undefined)
      | _ \<Rightarrow> Inr Undefined)"

text \<open>
  \<open>target[key] = v\<close> for an object \<open>target\<close> and a name that is not an array index;
  on a primitive nothing is kept.
\<close>

definition set_prop :: "heap \<Rightarrow> jsval \<Rightarrow> string \<Rightarrow> jsval \<Rightarrow> heap" where
  "set_prop h target key v =
     (case target of
        Ref a \<Rightarrow>
          (if a < length h then
             (case h ! a of Cell k ps \<Rightarrow> h[a := Cell k (prop_set ps key v)])
           else h)
      | _ \<Rightarrow> h)"

definition Object_keys :: "heap \<Rightarrow> jsval \<Rightarrow> error + string list" where
  "Object_keys h v =
     (case v of
        Undefined \<Rightarrow> Inl TypeError
      | Null \<Rightarrow> Inl TypeError
      | Ref a \<Rightarrow>
          Inr (case cell_at h a of
                 Cell Plain ps \<Rightarrow> map fst ps
               | Cell (Array xs) ps \<Rightarrow> map index_name [0..<length xs] @ map fst ps)
      | Str s \<Rightarrow> Inr (map index_name [0..<length s])
      | _ \<Rightarrow> Inr [])"

text \<open>
  The elements of \<open>v\<close> when it is an array. \<open>v.map\<close>, \<open>v.forEach\<close> are array methods:
  calling one on anything else is calling \<open>undefined\<close>, a \<open>TypeError\<close>.
\<close>

definition array_of :: "heap \<Rightarrow> jsval \<Rightarrow> error + jsval list" where
  "array_of h v =
     (case v of
        Ref a \<Rightarrow> (case cell_at h a of Cell (Array xs) ps \<Rightarrow> Inr xs | _ \<Rightarrow> Inl TypeError)
      | _ \<Rightarrow> Inl TypeError)"

subsection \<open>Arrays\<close>

text \<open>\<open>xs.map((x, i) => f(i, x))\<close> with a callback that may throw; \<open>i\<close> counts from \<open>n\<close>.\<close>

fun map_indexed :: "(nat \<Rightarrow> 'a \<Rightarrow> error + 'b) \<Rightarrow> nat \<Rightarrow> 'a list \<Rightarrow> error + 'b list" where
  "map_indexed f n [] = Inr []"
| "map_indexed f n (x # xs) =
     (case f n x of
        Inl e \<Rightarrow> Inl e
      | Inr y \<Rightarrow> (case map_indexed f (Suc n) xs of Inl e \<Rightarrow> Inl e | Inr ys \<Rightarrow> Inr (y # ys)))"

text \<open>\<open>xs[i]\<close> on the elements of an array: \<open>undefined\<close> past the end.\<close>

definition element :: "jsval list \<Rightarrow> nat \<Rightarrow> jsval" where
  "element xs i = (if i < length xs then xs ! i else Undefined)"

subsection \<open>Truth, equality, coercions\<close>

definition truthy :: "jsval \<Rightarrow> bool" where
  "truthy v =
     (case v of
        Undefined \<Rightarrow> False
      | Null \<Rightarrow> False
      | Bool b \<Rightarrow> b
      | Num n \<Rightarrow> n \<noteq> NaN \<and> n \<noteq> Fin 0
      | Str s \<Rightarrow> s \<noteq> []
      | Ref a \<Rightarrow> True)"

text \<open>The strict equality \<open>a === b\<close>; \<open>a !== b\<close> is its negation.\<close>

fun strict_eq :: "jsval \<Rightarrow> jsval \<Rightarrow> bool" where
  "strict_eq (Num a) (Num b) = (a \<noteq> NaN \<and> a = b)"
| "strict_eq a b = (a = b)"

text \<open>
  The equality rule in the words of the specification (4.4): two values are identical
  when they are equal by value (primitives) or are the same reference (composites).
\<close>

definition identical :: "jsval \<Rightarrow> jsval \<Rightarrow> bool" where
  "identical a b = (a = b)"

definition isFinite :: "jsval \<Rightarrow> bool" where
  "isFinite v = (case v of Num (Fin x) \<Rightarrow> True | _ \<Rightarrow> False)"

text \<open>
  What the programs take from outside: the settings of the XVIZ parser, the methods of
  the objects handed to the loader (the log synchronizer), the parts of the
  language's coercions that are not spelled out here (numbers from strings and from
  objects, \<open>+\<close> with a string or an object, property names from values that are not
  strings), and the addresses of the two built-in prototypes, \<open>Object.prototype\<close> and
  \<open>Array.prototype\<close>, which are objects of the heap like any other. They are
  parameters; every theorem holds for all of them.
\<close>

record env =
  TIME_WINDOW :: jsval
  Object_prototype :: addr
  Array_prototype :: addr
  to_number :: "jsval \<Rightarrow> jsnum"
  plus_other :: "jsval \<Rightarrow> jsval \<Rightarrow> jsval"
  to_key :: "jsval \<Rightarrow> string"
  call_method :: "string \<Rightarrow> addr \<Rightarrow> jsval list \<Rightarrow> heap \<Rightarrow> (error + jsval) \<times> heap"

text \<open>\<open>Number(v)\<close>.\<close>

definition Number :: "env \<Rightarrow> jsval \<Rightarrow> jsnum" where
  "Number env v =
     (case v of
        Undefined \<Rightarrow> NaN
      | Null \<Rightarrow> Fin 0
      | Bool b \<Rightarrow> Fin (if b then 1 else 0)
      | Num n \<Rightarrow> n
      | _ \<Rightarrow> to_number env v)"

definition numeric :: "jsval \<Rightarrow> bool" where
  "numeric v = (case v of Str s \<Rightarrow> False | Ref a \<Rightarrow> False | _ \<Rightarrow> True)"

text \<open>\<open>a + b\<close>.\<close>

definition plus :: "env \<Rightarrow> jsval \<Rightarrow> jsval \<Rightarrow> jsval" where
  "plus env a b =
     (if numeric a \<and> numeric b then Num (jadd (Number env a) (Number env b))
      else plus_other env a b)"

definition ToPropertyKey :: "env \<Rightarrow> jsval \<Rightarrow> string" where
  "ToPropertyKey env v = (case v of Str s \<Rightarrow> s | _ \<Rightarrow> to_key env v)"

text \<open>\<open>receiver.name(args)\<close> for a method that is not part of the programs.\<close>

definition invoke :: "env \<Rightarrow> jsval \<Rightarrow> string \<Rightarrow> jsval list \<Rightarrow> heap \<Rightarrow> (error + jsval) \<times> heap" where
  "invoke env receiver name args h =
     (case receiver of
        Ref a \<Rightarrow> call_method env name a args h
      | _ \<Rightarrow> (Inl TypeError, h))"

text \<open>
  Modelled from the spec: \<open>clamp\<close> comes from the package math.gl and is not among the
  sources. The specification (4.6) has \<open>seek\<close> clamp the timestamp into
  \<open>[logStartTime, logEndTime]\<close>; on numbers math.gl computes
  \<open>Math.max(min, Math.min(max, value))\<close>.
\<close>

definition clamp :: "env \<Rightarrow> jsval \<Rightarrow> jsval \<Rightarrow> jsval \<Rightarrow> jsval" where
  "clamp env v lo hi =
     Num (Math_max (Number env lo) (Math_min (Number env hi) (Number env v)))"

subsection \<open>Prototype chains\<close>

text \<open>
  The objects a property is looked up in after the own properties of an object whose
  prototype is \<open>p\<close>, nearest first: the prototype, then the prototype of the
  prototype, up to \<open>Object.prototype\<close>, whose own prototype is \<open>null\<close>. There is none
  when \<open>p\<close> is \<open>null\<close>.
\<close>

definition prototype_chain :: "env \<Rightarrow> heap \<Rightarrow> jsval \<Rightarrow> addr list" where
  "prototype_chain env h p =
     (case p of
        Ref a \<Rightarrow>
          (if a = Object_prototype env then [a]
           else if a = Array_prototype env then [a, Object_prototype env]
           else (case cell_at h a of
                   Cell Plain ps \<Rightarrow> [a, Object_prototype env]
                 | Cell (Array xs) ps \<Rightarrow> [a, Array_prototype env, Object_prototype env]))
      | _ \<Rightarrow> [])"

text \<open>The first of the objects that has the property as its own gives the value.\<close>

fun find_property :: "heap \<Rightarrow> addr list \<Rightarrow> string \<Rightarrow> jsval option" where
  "find_property h [] key = None"
| "find_property h (a # as) key =
     (if has_own (cell_at h a) key then Some (own_get (cell_at h a) key)
      else find_property h as key)"

text \<open>
  What an object inherits under \<open>key\<close> from its prototype \<open>p\<close>: a value, or the
  accessor \<open>__proto__\<close> of \<open>Object.prototype\<close> (the one accessor property of the
  objects considered here), or nothing.
\<close>

datatype inherited = Data jsval | Accessor | Absent

definition inherit :: "env \<Rightarrow> heap \<Rightarrow> jsval \<Rightarrow> string \<Rightarrow> inherited" where
  "inherit env h p key =
     (case find_property h (prototype_chain env h p) key of
        Some v \<Rightarrow> Data v
      | None \<Rightarrow>
          if key = ''__proto__'' \<and> prototype_chain env h p \<noteq> [] then Accessor else Absent)"


section \<open>The reactive state store of the loader\<close>

text \<open>
  A listener is a JavaScript function, known here by its identity only. Calling it is an
  effect, recorded in a trace: which listener was called, with which argument, and the
  own properties of the state it could read at that moment. Listeners are taken not to
  write to the store while they are notified.
\<close>

type_synonym listener = nat

datatype event = Notified listener nat props

datatype selector =
  LogStartTime | LogEndTime | CurrentFrame | TimeDomain | Timestamps | ImageStreamNames
| ImageFrames

text \<open>
  The loader with the heap its values live in. The object \<open>this.state\<close> is given by
  its own properties and its prototype (the object itself is not handed out as a
  value). \<open>cache\<close> holds, for every selector of the loader, the inputs and the
  result of its last recomputation. The version counter
  is a natural number (a JavaScript number stops counting at \<open>2^53\<close>; that many changes
  are not considered). The event callbacks (\<open>on\<close>, \<open>off\<close>, \<open>emit\<close>) and the options of
  the loader play no part in what follows and are left out, as is \<open>getTimeSeries\<close>,
  whose recompute function only calls a helper that is not among the sources.
\<close>

record world =
  state :: props
  prototype :: jsval
  version :: nat
  listeners :: "listener list"
  trace :: "event list"
  heap :: heap
  cache :: "selector \<Rightarrow> (jsval list \<times> jsval) option"

text \<open>
  The constructor: \<open>listeners = []\<close>, \<open>state = {}\<close>, \<open>_version = 0\<close>. The object
  literal \<open>{}\<close> has the prototype \<open>Object.prototype\<close>.
\<close>

definition constructor :: "env \<Rightarrow> heap \<Rightarrow> world" where
  "constructor env h =
     \<lparr>state = [], prototype = Ref (Object_prototype env), version = 0, listeners = [],
      trace = [], heap = h, cache = (\<lambda>s. None)\<rparr>"

definition subscribe :: "listener \<Rightarrow> world \<Rightarrow> world" where
  "subscribe instance w = w\<lparr>listeners := listeners w @ [instance]\<rparr>"

text \<open>\<open>findIndex\<close> then \<open>splice(index, 1)\<close>: the first occurrence is removed.\<close>

definition unsubscribe :: "listener \<Rightarrow> world \<Rightarrow> world" where
  "unsubscribe instance w = w\<lparr>listeners := remove1 instance (listeners w)\<rparr>"

text \<open>
  \<open>this.state[key]\<close>, for a key that is a string: the own property of the state
  object when it has one, else what it inherits through its prototype chain. The getter
  of \<open>__proto__\<close> returns the prototype of the state object; a key found nowhere
  reads as \<open>undefined\<close>.
\<close>

definition get :: "env \<Rightarrow> world \<Rightarrow> string \<Rightarrow> jsval" where
  "get env w key =
     (case map_of (state w) key of
        Some v \<Rightarrow> v
      | None \<Rightarrow>
          (case inherit env (heap w) (prototype w) key of
             Data v \<Rightarrow> v
           | Accessor \<Rightarrow> prototype w
           | Absent \<Rightarrow> Undefined))"

text \<open>
  \<open>this.state[key] = v\<close>. An own property is overwritten. Otherwise an inherited
  accessor is called: the setter of \<open>__proto__\<close> makes \<open>v\<close> the prototype of the state
  object when \<open>v\<close> is an object or \<open>null\<close>, and does nothing when \<open>v\<close> is another
  primitive. In every other case the state object gets \<open>key\<close> as a new own property.
\<close>

definition assign :: "env \<Rightarrow> string \<Rightarrow> jsval \<Rightarrow> world \<Rightarrow> world" where
  "assign env key v w =
     (if map_of (state w) key = None \<and> inherit env (heap w) (prototype w) key = Accessor then
        (case v of
           Ref a \<Rightarrow> w\<lparr>prototype := v\<rparr>
         | Null \<Rightarrow> w\<lparr>prototype := v\<rparr>
         | _ \<Rightarrow> w)
      else w\<lparr>state := prop_set (state w) key v\<rparr>)"

text \<open>\<open>this.listeners.forEach(o => o(this._version))\<close>, one call after the other.\<close>

fun forEach_listener :: "listener list \<Rightarrow> world \<Rightarrow> world" where
  "forEach_listener [] w = w"
| "forEach_listener (l # ls) w =
     forEach_listener ls (w\<lparr>trace := trace w @ [Notified l (version w) (state w)]\<rparr>)"

text \<open>
  \<open>set(key, value)\<close>: when \<open>this.state[key] !== value\<close>, the assignment, then
  \<open>this._version++\<close>, then the listeners.
\<close>

definition set' :: "env \<Rightarrow> string \<Rightarrow> jsval \<Rightarrow> world \<Rightarrow> world" where
  "set' env key v w =
     (if \<not> strict_eq (get env w key) v then
        forEach_listener (listeners w)
          ((assign env key v w)\<lparr>version := version w + 1\<rparr>)
      else w)"


section \<open>The selectors of the loader\<close>

text \<open>The plain getters: \<open>getCurrentTime\<close>, \<open>getMetadata\<close>, \<open>getLogSynchronizer\<close>, \<open>getStreams\<close>.\<close>

type_synonym getter = "world \<Rightarrow> (error + jsval) \<times> world"

definition getCurrentTime :: "env \<Rightarrow> getter" where
  "getCurrentTime env w = (Inr (get env w ''timestamp''), w)"

definition getMetadata :: "env \<Rightarrow> getter" where
  "getMetadata env w = (Inr (get env w ''metadata''), w)"

definition getLogSynchronizer :: "env \<Rightarrow> getter" where
  "getLogSynchronizer env w = (Inr (get env w ''logSynchronizer''), w)"

definition getStreams :: "env \<Rightarrow> getter" where
  "getStreams env w = (Inr (get env w ''streams''), w)"

text \<open>
  Modelled from the spec: the inputs of a selector (4.5, "evaluate all input selectors")
  are read one after the other; an input that throws ends the read.
\<close>

fun eval_inputs :: "getter list \<Rightarrow> world \<Rightarrow> (error + jsval list) \<times> world" where
  "eval_inputs [] w = (Inr [], w)"
| "eval_inputs (d # ds) w =
     (case d w of
        (Inl e, w1) \<Rightarrow> (Inl e, w1)
      | (Inr v, w1) \<Rightarrow>
          (case eval_inputs ds w1 of
             (Inl e, w2) \<Rightarrow> (Inl e, w2)
           | (Inr vs, w2) \<Rightarrow> (Inr (v # vs), w2)))"

text \<open>
  Modelled from the spec: the tuple of inputs is compared element by element with the
  tuple of the last recomputation (4.5), each pair with \<open>===\<close>.
\<close>

definition same_inputs :: "jsval list \<Rightarrow> jsval list \<Rightarrow> bool" where
  "same_inputs prev ins = list_all2 strict_eq prev ins"

type_synonym recompute = "jsval list \<Rightarrow> heap \<Rightarrow> (error + jsval) \<times> heap"

text \<open>
  Modelled from the spec: "recompute, cache the new (inputs, result) pair, and return the
  new result" (4.5). A recompute function that throws leaves the cache as it was; what
  it wrote to the heap before stays written.
\<close>

definition recomputed :: "selector \<Rightarrow> recompute \<Rightarrow> jsval list \<Rightarrow> world \<Rightarrow> (error + jsval) \<times> world" where
  "recomputed name fn ins w =
     (case fn ins (heap w) of
        (Inl e, h) \<Rightarrow> (Inl e, w\<lparr>heap := h\<rparr>)
      | (Inr r, h) \<Rightarrow> (Inr r, w\<lparr>heap := h, cache := (cache w)(name \<mapsto> (ins, r))\<rparr>))"

text \<open>
  Modelled from the spec: \<open>createSelector\<close> is imported from the loader's utilities,
  which are not among the sources. The specification (4.5): on a read, all inputs are
  evaluated; the tuple of their values is compared with the tuple of the last
  recomputation; when they are the same the cached result is returned and the recompute
  function is not called; otherwise the function is called and the new pair of inputs
  and result is cached. \<open>name\<close> is the selector the cache belongs to.
\<close>

definition createSelector :: "selector \<Rightarrow> getter list \<Rightarrow> recompute \<Rightarrow> getter" where
  "createSelector name inputs fn w =
     (case eval_inputs inputs w of
        (Inl e, w1) \<Rightarrow> (Inl e, w1)
      | (Inr ins, w1) \<Rightarrow>
          (case cache w1 name of
             None \<Rightarrow> recomputed name fn ins w1
           | Some (prev, r) \<Rightarrow>
               if same_inputs prev ins then (Inr r, w1) else recomputed name fn ins w1))"

subsection \<open>The recompute functions\<close>

text \<open>\<open>metadata && metadata.start_time + getXvizSettings().TIME_WINDOW\<close>\<close>

definition getLogStartTime_fn :: "env \<Rightarrow> jsval \<Rightarrow> heap \<Rightarrow> (error + jsval) \<times> heap" where
  "getLogStartTime_fn env metadata h =
     (if truthy metadata then
        (case get_prop h metadata ''start_time'' of
           Inl e \<Rightarrow> (Inl e, h)
         | Inr start_time \<Rightarrow> (Inr (plus env start_time (TIME_WINDOW env)), h))
      else (Inr metadata, h))"

text \<open>\<open>metadata && metadata.end_time\<close>\<close>

definition getLogEndTime_fn :: "jsval \<Rightarrow> heap \<Rightarrow> (error + jsval) \<times> heap" where
  "getLogEndTime_fn metadata h =
     (if truthy metadata then
        (case get_prop h metadata ''end_time'' of
           Inl e \<Rightarrow> (Inl e, h)
         | Inr end_time \<Rightarrow> (Inr end_time, h))
      else (Inr metadata, h))"

definition getCurrentFrame_fn ::
  "env \<Rightarrow> jsval \<Rightarrow> jsval \<Rightarrow> jsval \<Rightarrow> heap \<Rightarrow> (error + jsval) \<times> heap" where
  "getCurrentFrame_fn env logSynchronizer metadata timestamp h =
     (if truthy logSynchronizer \<and> truthy metadata \<and> isFinite timestamp then
        (case invoke env logSynchronizer ''setTime'' [timestamp] h of
           (Inl e, h1) \<Rightarrow> (Inl e, h1)
         | (Inr u, h1) \<Rightarrow>
             (case get_prop h1 metadata ''streams'' of
                Inl e \<Rightarrow> (Inl e, h1)
              | Inr streams \<Rightarrow> invoke env logSynchronizer ''getCurrentFrame'' [streams] h1))
      else (Inr Null, h))"

text \<open>\<open>[logStartTime, logEndTime]\<close>, a new array.\<close>

definition getTimeDomain_fn :: "jsval \<Rightarrow> jsval \<Rightarrow> heap \<Rightarrow> (error + jsval) \<times> heap" where
  "getTimeDomain_fn logStartTime logEndTime h =
     (case alloc (Cell (Array [logStartTime, logEndTime]) []) h of (a, h1) \<Rightarrow> (Inr (Ref a), h1))"

text \<open>
  \<open>streams && streams['vehicle-pose']\<close>, then \<open>vehiclePoses.map(pose => pose.time)\<close>
  or \<open>null\<close>.
\<close>

definition getTimestamps_fn :: "jsval \<Rightarrow> heap \<Rightarrow> (error + jsval) \<times> heap" where
  "getTimestamps_fn streams h =
     (case (if truthy streams then get_prop h streams ''vehicle-pose'' else Inr streams) of
        Inl e \<Rightarrow> (Inl e, h)
      | Inr vehiclePoses \<Rightarrow>
          if truthy vehiclePoses then
            (case array_of h vehiclePoses of
               Inl e \<Rightarrow> (Inl e, h)
             | Inr entries \<Rightarrow>
                 (case map_indexed (\<lambda>i pose. get_prop h pose ''time'') 0 entries of
                    Inl e \<Rightarrow> (Inl e, h)
                  | Inr stamps \<Rightarrow>
                      (case alloc (Cell (Array stamps) []) h of (a, h1) \<Rightarrow> (Inr (Ref a), h1))))
          else (Inr Null, h))"

text \<open>The callback of the filter: \<open>streams[streamName].type === 'image'\<close>.\<close>

fun filter_image :: "heap \<Rightarrow> jsval \<Rightarrow> string list \<Rightarrow> error + string list" where
  "filter_image h streams [] = Inr []"
| "filter_image h streams (streamName # names) =
     (case get_prop h streams streamName of
        Inl e \<Rightarrow> Inl e
      | Inr stream \<Rightarrow>
          (case get_prop h stream ''type'' of
             Inl e \<Rightarrow> Inl e
           | Inr t \<Rightarrow>
               (case filter_image h streams names of
                  Inl e \<Rightarrow> Inl e
                | Inr rest \<Rightarrow>
                    Inr (if strict_eq t (Str ''image'') then streamName # rest else rest))))"

definition getImageStreamNames_fn :: "jsval \<Rightarrow> heap \<Rightarrow> (error + jsval) \<times> heap" where
  "getImageStreamNames_fn metadata h =
     (case (if truthy metadata then get_prop h metadata ''streams'' else Inr metadata) of
        Inl e \<Rightarrow> (Inl e, h)
      | Inr streams \<Rightarrow>
          if truthy streams then
            (case Object_keys h streams of
               Inl e \<Rightarrow> (Inl e, h)
             | Inr keys \<Rightarrow>
                 (case filter_image h streams keys of
                    Inl e \<Rightarrow> (Inl e, h)
                  | Inr names \<Rightarrow>
                      (case alloc (Cell (Array (map Str names)) []) h of
                         (a, h1) \<Rightarrow> (Inr (Ref a), h1))))
          else (Inr streams, h))"

text \<open>\<open>frame && frame.images[0]\<close>\<close>

definition first_image :: "heap \<Rightarrow> jsval \<Rightarrow> error + jsval" where
  "first_image h frame =
     (if truthy frame then
        (case get_prop h frame ''images'' of
           Inl e \<Rightarrow> Inl e
         | Inr images \<Rightarrow> get_prop h images ''0'')
      else Inr frame)"

text \<open>
  The callback of \<open>streams[streamName].map\<close>. \<open>Object.assign(image, {timestamp: ...})\<close>
  writes the property \<open>timestamp\<close> of the image; the value returned is read after it.
\<close>

definition image_frame ::
  "env \<Rightarrow> jsval \<Rightarrow> nat \<Rightarrow> jsval \<Rightarrow> heap \<Rightarrow> (error + jsval) \<times> heap" where
  "image_frame env timestamps i frame h =
     (case get_prop h timestamps (index_name i) of
        Inl e \<Rightarrow> (Inl e, h)
      | Inr timestamp \<Rightarrow>
          (case first_image h frame of
             Inl e \<Rightarrow> (Inl e, h)
           | Inr img \<Rightarrow>
               if truthy img then
                 (let h1 = set_prop h img ''timestamp''
                             (Num (jdiv (Number env timestamp) (Fin 1000)))
                  in (first_image h1 frame, h1))
               else (first_image h frame, h)))"

fun map_frames ::
  "env \<Rightarrow> jsval \<Rightarrow> nat \<Rightarrow> jsval list \<Rightarrow> heap \<Rightarrow> (error + jsval list) \<times> heap" where
  "map_frames env timestamps i [] h = (Inr [], h)"
| "map_frames env timestamps i (frame # frames) h =
     (case image_frame env timestamps i frame h of
        (Inl e, h1) \<Rightarrow> (Inl e, h1)
      | (Inr img, h1) \<Rightarrow>
          (case map_frames env timestamps (Suc i) frames h1 of
             (Inl e, h2) \<Rightarrow> (Inl e, h2)
           | (Inr images, h2) \<Rightarrow> (Inr (img # images), h2)))"

text \<open>
  The callback of \<open>imageStreamNames.forEach\<close>, for the names one after the other:
  \<open>frames[streamName] = streams[streamName].map(...)\<close>.
\<close>

fun forEach_stream ::
  "env \<Rightarrow> jsval \<Rightarrow> jsval \<Rightarrow> jsval \<Rightarrow> jsval list \<Rightarrow> heap \<Rightarrow> (error + unit) \<times> heap" where
  "forEach_stream env frames streams timestamps [] h = (Inr (), h)"
| "forEach_stream env frames streams timestamps (streamName # names) h =
     (case get_prop h streams (ToPropertyKey env streamName) of
        Inl e \<Rightarrow> (Inl e, h)
      | Inr stream \<Rightarrow>
          (case array_of h stream of
             Inl e \<Rightarrow> (Inl e, h)
           | Inr entries \<Rightarrow>
               (case map_frames env timestamps 0 entries h of
                  (Inl e, h1) \<Rightarrow> (Inl e, h1)
                | (Inr images, h1) \<Rightarrow>
                    (case alloc (Cell (Array images) []) h1 of
                       (b, h2) \<Rightarrow>
                         forEach_stream env frames streams timestamps names
                           (set_prop h2 frames (ToPropertyKey env streamName) (Ref b))))))"

definition getImageFrames_fn ::
  "env \<Rightarrow> jsval \<Rightarrow> jsval \<Rightarrow> jsval \<Rightarrow> heap \<Rightarrow> (error + jsval) \<times> heap" where
  "getImageFrames_fn env imageStreamNames streams timestamps h =
     (if truthy streams \<and> truthy imageStreamNames then
        (case alloc (Cell Plain []) h of
           (a, h1) \<Rightarrow>
             (case array_of h1 imageStreamNames of
                Inl e \<Rightarrow> (Inl e, h1)
              | Inr names \<Rightarrow>
                  (case forEach_stream env (Ref a) streams timestamps names h1 of
                     (Inl e, h2) \<Rightarrow> (Inl e, h2)
                   | (Inr u, h2) \<Rightarrow> (Inr (Ref a), h2))))
      else (Inr Null, h))"

subsection \<open>The selectors\<close>

definition getLogStartTime :: "env \<Rightarrow> getter" where
  "getLogStartTime env =
     createSelector LogStartTime [getMetadata env] (\<lambda>ins. getLogStartTime_fn env (ins ! 0))"

definition getLogEndTime :: "env \<Rightarrow> getter" where
  "getLogEndTime env =
     createSelector LogEndTime [getMetadata env] (\<lambda>ins. getLogEndTime_fn (ins ! 0))"

definition getCurrentFrame :: "env \<Rightarrow> getter" where
  "getCurrentFrame env =
     createSelector CurrentFrame [getLogSynchronizer env, getMetadata env, getCurrentTime env]
       (\<lambda>ins. getCurrentFrame_fn env (ins ! 0) (ins ! 1) (ins ! 2))"

definition getTimeDomain :: "env \<Rightarrow> getter" where
  "getTimeDomain env =
     createSelector TimeDomain [getLogStartTime env, getLogEndTime env]
       (\<lambda>ins. getTimeDomain_fn (ins ! 0) (ins ! 1))"

definition getTimestamps :: "env \<Rightarrow> getter" where
  "getTimestamps env =
     createSelector Timestamps [getStreams env] (\<lambda>ins. getTimestamps_fn (ins ! 0))"

definition getImageStreamNames :: "env \<Rightarrow> getter" where
  "getImageStreamNames env =
     createSelector ImageStreamNames [getMetadata env] (\<lambda>ins. getImageStreamNames_fn (ins ! 0))"

definition getImageFrames :: "env \<Rightarrow> getter" where
  "getImageFrames env =
     createSelector ImageFrames [getImageStreamNames env, getStreams env, getTimestamps env]
       (\<lambda>ins. getImageFrames_fn env (ins ! 0) (ins ! 1) (ins ! 2))"

text \<open>Reading a selector of the loader by its name.\<close>

definition read_selector :: "env \<Rightarrow> selector \<Rightarrow> getter" where
  "read_selector env name =
     (case name of
        LogStartTime \<Rightarrow> getLogStartTime env
      | LogEndTime \<Rightarrow> getLogEndTime env
      | CurrentFrame \<Rightarrow> getCurrentFrame env
      | TimeDomain \<Rightarrow> getTimeDomain env
      | Timestamps \<Rightarrow> getTimestamps env
      | ImageStreamNames \<Rightarrow> getImageStreamNames env
      | ImageFrames \<Rightarrow> getImageFrames env)"

subsection \<open>The time cursor\<close>

definition seek :: "env \<Rightarrow> jsval \<Rightarrow> world \<Rightarrow> (error + unit) \<times> world" where
  "seek env timestamp w =
     (if truthy (get env w ''metadata'') then
        (case getLogStartTime env w of
           (Inl e, w1) \<Rightarrow> (Inl e, w1)
         | (Inr startTime, w1) \<Rightarrow>
             (case getLogEndTime env w1 of
                (Inl e, w2) \<Rightarrow> (Inl e, w2)
              | (Inr endTime, w2) \<Rightarrow>
                  (Inr (), set' env ''timestamp'' (clamp env timestamp startTime endTime) w2)))
      else (Inr (), set' env ''timestamp'' timestamp w))"

definition setMetadata :: "env \<Rightarrow> jsval \<Rightarrow> world \<Rightarrow> (error + unit) \<times> world" where
  "setMetadata env metadata w =
     (let w1 = set' env ''metadata'' metadata w;
          timestamp = get env w1 ''timestamp''
      in if isFinite timestamp then seek env timestamp w1
         else (case get_prop (heap w1) metadata ''start_time'' of
                 Inl e \<Rightarrow> (Inl e, w1)
               | Inr start_time \<Rightarrow> seek env start_time w1))"


section \<open>The GPS converter\<close>

text \<open>
  \<open>_convertPoseEntry\<close> takes the packet of one file, an object whose properties are
  what the OXTS parser found on the line (given here by its properties), and the
  timestamp of the frame, which it copies as it is.
\<close>

record pose =
  time :: jsval
  latitude :: jsnum
  longitude :: jsnum
  altitude :: jsnum
  roll :: jsnum
  pitch :: jsnum
  yaw :: jsnum

record velocity =
  timestamp :: jsval
  velocity_north :: jsnum
  velocity_east :: jsnum
  velocity_forward :: jsnum
  velocity_left :: jsnum
  velocity_upward :: jsnum
  angular_rate_x :: jsnum
  angular_rate_y :: jsnum
  angular_rate_z :: jsnum
  angular_rate_forward :: jsnum
  angular_rate_left :: jsnum
  angular_rate_upward :: jsnum

record acceleration =
  timestamp :: jsval
  acceleration_x :: jsnum
  acceleration_y :: jsnum
  acceleration_z :: jsnum
  acceleration_forward :: jsnum
  acceleration_left :: jsnum
  acceleration_upward :: jsnum

record resMap =
  pose :: pose
  velocity :: velocity
  acceleration :: acceleration

definition convertPoseEntry :: "env \<Rightarrow> props \<Rightarrow> jsval \<Rightarrow> error + resMap" where
  "convertPoseEntry env oxts ts =
     Inr \<lparr>pose =
            \<lparr>time = ts,
             latitude = Number env (prop_get oxts ''lat''),
             longitude = Number env (prop_get oxts ''lon''),
             altitude = Number env (prop_get oxts ''alt''),
             roll = Number env (prop_get oxts ''roll''),
             pitch = Number env (prop_get oxts ''pitch''),
             yaw = Number env (prop_get oxts ''yaw'')\<rparr>,
          velocity =
            \<lparr>velocity.timestamp = ts,
             velocity_north = Number env (prop_get oxts ''vn''),
             velocity_east = Number env (prop_get oxts ''ve''),
             velocity_forward = Number env (prop_get oxts ''vf''),
             velocity_left = Number env (prop_get oxts ''vl''),
             velocity_upward = Number env (prop_get oxts ''vu''),
             angular_rate_x = Number env (prop_get oxts ''wx''),
             angular_rate_y = Number env (prop_get oxts ''wy''),
             angular_rate_z = Number env (prop_get oxts ''wz''),
             angular_rate_forward = Number env (prop_get oxts ''wf''),
             angular_rate_left = Number env (prop_get oxts ''wl''),
             angular_rate_upward = Number env (prop_get oxts ''wu'')\<rparr>,
          acceleration =
            \<lparr>acceleration.timestamp = ts,
             acceleration_x = Number env (prop_get oxts ''ax''),
             acceleration_y = Number env (prop_get oxts ''ay''),
             acceleration_z = Number env (prop_get oxts ''az''),
             acceleration_forward = Number env (prop_get oxts ''af''),
             acceleration_left = Number env (prop_get oxts ''al''),
             acceleration_upward = Number env (prop_get oxts ''au'')\<rparr>\<rparr>"

text \<open>
  The numeric fields of the result, each with the property of the packet it is read
  from.
\<close>

definition decoded_fields :: "(string \<times> (resMap \<Rightarrow> jsnum)) list" where
  "decoded_fields =
     [(''lat'', \<lambda>r. latitude (pose r)), (''lon'', \<lambda>r. longitude (pose r)),
      (''alt'', \<lambda>r. altitude (pose r)), (''roll'', \<lambda>r. roll (pose r)),
      (''pitch'', \<lambda>r. pitch (pose r)), (''yaw'', \<lambda>r. yaw (pose r)),
      (''vn'', \<lambda>r. velocity_north (velocity r)), (''ve'', \<lambda>r. velocity_east (velocity r)),
      (''vf'', \<lambda>r. velocity_forward (velocity r)), (''vl'', \<lambda>r. velocity_left (velocity r)),
      (''vu'', \<lambda>r. velocity_upward (velocity r)),
      (''wx'', \<lambda>r. angular_rate_x (velocity r)), (''wy'', \<lambda>r. angular_rate_y (velocity r)),
      (''wz'', \<lambda>r. angular_rate_z (velocity r)),
      (''wf'', \<lambda>r. angular_rate_forward (velocity r)),
      (''wl'', \<lambda>r. angular_rate_left (velocity r)),
      (''wu'', \<lambda>r. angular_rate_upward (velocity r)),
      (''ax'', \<lambda>r. acceleration_x (acceleration r)),
      (''ay'', \<lambda>r. acceleration_y (acceleration r)),
      (''az'', \<lambda>r. acceleration_z (acceleration r)),
      (''af'', \<lambda>r. acceleration_forward (acceleration r)),
      (''al'', \<lambda>r. acceleration_left (acceleration r)),
      (''au'', \<lambda>r. acceleration_upward (acceleration r))]"

text \<open>
  \<open>load\<close> reads the timestamps and, for every file of the sorted directory listing, the
  packet on its first line; reading and parsing are done by functions that are not
  among the sources, so their results are the arguments here: the array of timestamps
  and the packet of each file, in order. It fills \<open>this.timestamps\<close> and \<open>this.poses\<close>.
\<close>

record converter =
  timestamps :: "jsval list"
  poses :: "resMap list"

definition load :: "env \<Rightarrow> jsval list \<Rightarrow> props list \<Rightarrow> error + converter" where
  "load env ts packets =
     (case map_indexed (\<lambda>i oxts. convertPoseEntry env oxts (element ts i)) 0 packets of
        Inl e \<Rightarrow> Inl e
      | Inr ps \<Rightarrow> Inr \<lparr>timestamps = ts, poses = ps\<rparr>)"

type_synonym vertex = "jsnum \<times> jsnum"

text \<open>
  Modelled from the spec: the specification speaks of numbers (3). The displacement
  along one axis is the difference of the two coordinates; where one of them is not a
  finite number there is no displacement along the axis, and a heading that is not a
  finite number turns nothing.
\<close>

definition displacement :: "jsnum \<Rightarrow> jsnum \<Rightarrow> real" where
  "displacement a b = (case a of Fin x \<Rightarrow> (case b of Fin y \<Rightarrow> y - x | _ \<Rightarrow> 0) | _ \<Rightarrow> 0)"

definition heading :: "jsnum \<Rightarrow> real" where
  "heading a = (case a of Fin x \<Rightarrow> x | _ \<Rightarrow> 0)"

text \<open>
  Modelled from the spec: \<open>getPoseOffset\<close> is imported from the converters' common
  module, which is not among the sources. The specification (4.3) takes the displacement
  from the anchor to the pose in a local Cartesian frame and rotates it by
  \<open>-anchor.yaw\<close>, "so the first vertex is always (0,0)". Its scenario (8) has poses at
  \<open>(0,0,0)\<close>, \<open>(10,0,0)\<close> and \<open>(10,10,0)\<close> with heading 0 give the vertices \<open>(0,0)\<close>,
  \<open>(10,0)\<close> and \<open>(10,10)\<close>, and has the vertices unchanged when every pose is moved by
  the same offset. So the frame is the one the positions are given in: the first
  coordinate of a pose (its latitude) along the first axis and the second (its
  longitude) along the second.
\<close>

definition getPoseOffset :: "pose \<Rightarrow> pose \<Rightarrow> vertex" where
  "getPoseOffset p1 p2 =
     (let dx = displacement (latitude p1) (latitude p2);
          dy = displacement (longitude p1) (longitude p2);
          c = cos (- heading (yaw p1));
          s = sin (- heading (yaw p1))
      in (Fin (dx * c - dy * s), Fin (dx * s + dy * c)))"

text \<open>\<open>motions[0]\<close> is read inside the callback only, where it exists.\<close>

definition convertTrajectory :: "pose list \<Rightarrow> error + vertex list" where
  "convertTrajectory motions =
     map_indexed (\<lambda>i m. Inr (getPoseOffset (motions ! 0) m)) 0 motions"

text \<open>A pose moved by a constant offset of its latitude and of its longitude.\<close>

definition translated :: "real \<Rightarrow> real \<Rightarrow> pose \<Rightarrow> pose" where
  "translated a b p =
     p\<lparr>latitude := jadd (latitude p) (Fin a), longitude := jadd (longitude p) (Fin b)\<rparr>"


section \<open>Invariants and relations\<close>

text \<open>
  The caches of \<open>getLogStartTime\<close> and \<open>getLogEndTime\<close> are up to date: a cached result
  is the result of the recompute function on the cached input, in the heap as it is
  now. This holds in a new loader and is kept by \<open>set\<close>, \<open>seek\<close> and \<open>_setMetadata\<close>;
  it is lost when \<open>start_time\<close> or \<open>end_time\<close> is written into a metadata object that
  was already read, which nothing in the loader does and other code can do.
\<close>

definition bounds_cached :: "env \<Rightarrow> world \<Rightarrow> bool" where
  "bounds_cached env w =
     ((case cache w LogStartTime of
         None \<Rightarrow> True
       | Some (ins, r) \<Rightarrow> length ins = 1 \<and> getLogStartTime_fn env (ins ! 0) (heap w) = (Inr r, heap w)) \<and>
      (case cache w LogEndTime of
         None \<Rightarrow> True
       | Some (ins, r) \<Rightarrow> length ins = 1 \<and> getLogEndTime_fn (ins ! 0) (heap w) = (Inr r, heap w)))"

text \<open>
  What a read of a selector returns: the cached result when the selector has a cached
  pair whose inputs are \<open>===\<close> to the inputs now, and the result computed now
  otherwise.
\<close>

definition memoized :: "world \<Rightarrow> selector \<Rightarrow> jsval list \<Rightarrow> jsval \<Rightarrow> jsval" where
  "memoized w name ins fresh =
     (case cache w name of
        None \<Rightarrow> fresh
      | Some (prev, r) \<Rightarrow> if same_inputs prev ins then r else fresh)"

text \<open>
  A read recomputes when the selector has no cached pair yet or an input is not \<open>===\<close>
  to the cached one.
\<close>

definition inputs_changed :: "world \<Rightarrow> selector \<Rightarrow> jsval list \<Rightarrow> bool" where
  "inputs_changed w name ins =
     (case cache w name of None \<Rightarrow> True | Some (prev, r) \<Rightarrow> \<not> same_inputs prev ins)"

text \<open>The inputs of \<open>getCurrentFrame\<close>: the synchronizer, the metadata, the time.\<close>

definition frame_inputs :: "env \<Rightarrow> world \<Rightarrow> jsval list" where
  "frame_inputs env w =
     [get env w ''logSynchronizer'', get env w ''metadata'', get env w ''timestamp'']"

text \<open>
  What a read leaves in the cache of \<open>getCurrentFrame\<close>: a result cached for inputs that
  are not all present is \<open>null\<close>.
\<close>

definition frame_cached :: "world \<Rightarrow> bool" where
  "frame_cached w =
     (case cache w CurrentFrame of
        None \<Rightarrow> True
      | Some (ins, r) \<Rightarrow>
          length ins = 3 \<and> (truthy (ins ! 0) \<and> truthy (ins ! 1) \<and> isFinite (ins ! 2) \<or> r = Null))"

text \<open>
  Two cells are the same but for the property \<open>timestamp\<close>: the same kind and
  elements, and the same other properties in the same order.
\<close>

definition without_timestamp :: "props \<Rightarrow> props" where
  "without_timestamp ps = filter (\<lambda>p. fst p \<noteq> ''timestamp'') ps"

definition same_but_timestamp :: "cell \<Rightarrow> cell \<Rightarrow> bool" where
  "same_but_timestamp c d =
     (case c of Cell k ps \<Rightarrow>
        (case d of Cell k' ps' \<Rightarrow> k = k' \<and> without_timestamp ps = without_timestamp ps'))"

text \<open>
  Of the first \<open>n\<close> cells of the heap none is lost and none has changed but for its
  property \<open>timestamp\<close>.
\<close>

definition only_timestamps :: "nat \<Rightarrow> heap \<Rightarrow> heap \<Rightarrow> bool" where
  "only_timestamps n h h' = (n \<le> length h' \<and> (\<forall>a<n. same_but_timestamp (h ! a) (h' ! a)))"

text \<open>What a read may do to the loader and to the heap.\<close>

definition store_kept :: "world \<Rightarrow> world \<Rightarrow> bool" where
  "store_kept w w' =
     (state w' = state w \<and> prototype w' = prototype w \<and> version w' = version w \<and>
      listeners w' = listeners w \<and> trace w' = trace w)"

text \<open>The heap has only grown: every cell that was there is there unchanged.\<close>

definition extended :: "heap \<Rightarrow> heap \<Rightarrow> bool" where
  "extended h h' = (take (length h) h' = h)"

definition touched :: "heap \<Rightarrow> heap \<Rightarrow> bool" where
  "touched h h' = only_timestamps (length h) h h'"


text \<open>
  The states of the loader: a new loader over some heap, and what \<open>subscribe\<close>,
  \<open>unsubscribe\<close>, \<open>set\<close>, \<open>seek\<close>, \<open>_setMetadata\<close> and the reads of the selectors
  make of a state. Code outside the loader may change the heap in between.
\<close>

inductive reachable :: "env \<Rightarrow> world \<Rightarrow> bool" for env :: env where
  new: "reachable env (constructor env h)"
| subscribe: "reachable env w \<Longrightarrow> reachable env (subscribe l w)"
| unsubscribe: "reachable env w \<Longrightarrow> reachable env (unsubscribe l w)"
| set: "reachable env w \<Longrightarrow> reachable env (set' env k v w)"
| seek: "reachable env w \<Longrightarrow> reachable env (snd (seek env t w))"
| setMetadata: "reachable env w \<Longrightarrow> reachable env (snd (setMetadata env m w))"
| read: "reachable env w \<Longrightarrow> reachable env (snd (read_selector env name w))"
| outside: "reachable env w \<Longrightarrow> reachable env (w\<lparr>heap := h\<rparr>)"


section \<open>Example states\<close>

text \<open>
  An environment for the examples: the coercions left open answer \<open>NaN\<close>, \<open>undefined\<close>
  and the empty name, no object has a method, and the time window is 5. The built-in
  prototypes are at the addresses 100 and 101, beyond the heaps of the examples, which
  leave them out: there they read as objects without properties of their own.
\<close>

definition plain_env :: env where
  "plain_env =
     \<lparr>TIME_WINDOW = Num (Fin 5), Object_prototype = 100, Array_prototype = 101,
      to_number = (\<lambda>v. NaN), plus_other = (\<lambda>a b. Undefined),
      to_key = (\<lambda>v. []), call_method = (\<lambda>name a args h. (Inl TypeError, h))\<rparr>"

text \<open>A loader with the listeners 7 and 9, after \<open>set('timestamp', 1)\<close>.\<close>

definition two_listeners :: world where
  "two_listeners =
     set' plain_env ''timestamp'' (Num (Fin 1)) (subscribe 9 (subscribe 7 (constructor plain_env [])))"

text \<open>A loader with the listener 7, after \<open>set('x', NaN)\<close>.\<close>

definition nan_stored :: world where
  "nan_stored = set' plain_env ''x'' (Num NaN) (subscribe 7 (constructor plain_env []))"


text \<open>
  A new loader with the listener 7 over a heap that holds \<open>Object.prototype\<close> (0)
  with its method \<open>toString\<close> (the function 2) and \<open>Array.prototype\<close> (1).
\<close>

definition realm_env :: env where
  "realm_env = plain_env\<lparr>Object_prototype := 0, Array_prototype := 1\<rparr>"

definition realm_heap :: heap where
  "realm_heap = [Cell Plain [(''toString'', Ref 2)], Cell (Array []) [], Cell Plain []]"

definition fresh_loader :: world where
  "fresh_loader = subscribe 7 (constructor realm_env realm_heap)"

text \<open>A packet with a latitude and a heading, and nothing else.\<close>

definition short_packet :: props where
  "short_packet = [(''lat'', Num (Fin 49)), (''yaw'', Num (Fin 0))]"

text \<open>
  The poses of the three-frame recording of the specification (8): at \<open>(0,0,0)\<close>,
  \<open>(10,0,0)\<close> and \<open>(10,10,0)\<close>, all with heading 0, at the times 0, 100 and 200.
\<close>

definition first_pose :: pose where
  "first_pose =
     \<lparr>time = Num (Fin 0), latitude = Fin 0, longitude = Fin 0, altitude = Fin 0,
      roll = Fin 0, pitch = Fin 0, yaw = Fin 0\<rparr>"

definition second_pose :: pose where
  "second_pose =
     \<lparr>time = Num (Fin 100), latitude = Fin 10, longitude = Fin 0, altitude = Fin 0,
      roll = Fin 0, pitch = Fin 0, yaw = Fin 0\<rparr>"

definition third_pose :: pose where
  "third_pose =
     \<lparr>time = Num (Fin 200), latitude = Fin 10, longitude = Fin 10, altitude = Fin 0,
      roll = Fin 0, pitch = Fin 0, yaw = Fin 0\<rparr>"

text \<open>
  A log from 100 to 200: a new loader over a heap with the metadata object, after
  \<open>_setMetadata\<close>. And a new loader without metadata.
\<close>

definition log_heap :: heap where
  "log_heap = [Cell Plain [(''start_time'', Num (Fin 100)), (''end_time'', Num (Fin 200))]]"

definition opened :: world where
  "opened = snd (setMetadata plain_env (Ref 0) (constructor plain_env log_heap))"

text \<open>
  The same loader after other code has rewritten the metadata object in place: the log
  now starts at 0.
\<close>

definition rewritten :: world where
  "rewritten =
     opened\<lparr>heap := [Cell Plain [(''start_time'', Num (Fin 0)), (''end_time'', Num (Fin 200))]]\<rparr>"

text \<open>
  A synchronizer that remembers the time it is given and numbers the frames it
  serves: \<open>getCurrentFrame\<close> returns the number of frames served before.
\<close>

definition counting_env :: env where
  "counting_env =
     plain_env\<lparr>call_method := (\<lambda>name a args h.
       if name = ''setTime'' then (Inr Undefined, set_prop h (Ref a) ''time'' (args ! 0))
       else if name = ''getCurrentFrame'' then
         (Inr (own_get (cell_at h a) ''served''),
          set_prop h (Ref a) ''served''
            (plus plain_env (own_get (cell_at h a) ''served'') (Num (Fin 1))))
       else (Inl TypeError, h))\<rparr>"

definition player_heap :: heap where
  "player_heap =
     [Cell Plain [(''served'', Num (Fin 0))],
      Cell Plain [(''start_time'', Num (Fin 100)), (''end_time'', Num (Fin 200)), (''streams'', Ref 2)],
      Cell Plain []]"

definition playing :: world where
  "playing =
     set' counting_env ''logSynchronizer'' (Ref 0)
       (snd (setMetadata counting_env (Ref 1) (constructor counting_env player_heap)))"

definition played :: world where
  "played = snd (getCurrentFrame counting_env playing)"

text \<open>
  A log with one camera. The metadata (0) declares the image stream \<open>cam\<close>; the streams
  (4) hold one vehicle pose, at time 2000, and two entries of \<open>cam\<close>: a frame (8) with
  one image (10), and an absent entry.
\<close>

definition camera_heap :: heap where
  "camera_heap =
     [Cell Plain [(''start_time'', Num (Fin 0)), (''end_time'', Num (Fin 10)), (''streams'', Ref 1)],
      Cell Plain [(''cam'', Ref 2), (''vehicle-pose'', Ref 3)],
      Cell Plain [(''type'', Str ''image'')],
      Cell Plain [(''category'', Str ''vehicle-pose'')],
      Cell Plain [(''vehicle-pose'', Ref 5), (''cam'', Ref 7)],
      Cell (Array [Ref 6]) [],
      Cell Plain [(''time'', Num (Fin 2000))],
      Cell (Array [Ref 8, Null]) [],
      Cell Plain [(''images'', Ref 9)],
      Cell (Array [Ref 10]) [],
      Cell Plain [(''width'', Num (Fin 640))]]"

definition camera_world :: world where
  "camera_world =
     set' plain_env ''streams'' (Ref 4)
       (snd (setMetadata plain_env (Ref 0) (subscribe 7 (constructor plain_env camera_heap))))"

text \<open>
  The same metadata, and streams (3) that hold the vehicle poses only: the stream \<open>cam\<close>
  is declared and not there yet.
\<close>

definition missing_stream_heap :: heap where
  "missing_stream_heap =
     [Cell Plain [(''start_time'', Num (Fin 0)), (''end_time'', Num (Fin 10)), (''streams'', Ref 1)],
      Cell Plain [(''cam'', Ref 2)],
      Cell Plain [(''type'', Str ''image'')],
      Cell Plain [(''vehicle-pose'', Ref 4)],
      Cell (Array [Ref 5]) [],
      Cell Plain [(''time'', Num (Fin 2000))]]"

definition missing_stream :: world where
  "missing_stream =
     set' plain_env ''streams'' (Ref 3)
       (snd (setMetadata plain_env (Ref 0) (constructor plain_env missing_stream_heap)))"


section \<open>Properties of the store\<close>

lemma map_of_prop_set:
  "map_of (prop_set ps k v) k' = (if k' = k then Some v else map_of ps k')"
  by (induction ps k v rule: prop_set.induct) auto

lemma forEach_listener_trace:
  "trace (forEach_listener ls w) = trace w @ map (\<lambda>l. Notified l (version w) (state w)) ls"
  by (induction ls arbitrary: w) auto

lemma forEach_listener_rest:
  "state (forEach_listener ls w) = state w \<and> version (forEach_listener ls w) = version w \<and>
   listeners (forEach_listener ls w) = listeners w \<and> heap (forEach_listener ls w) = heap w \<and>
   cache (forEach_listener ls w) = cache w \<and> prototype (forEach_listener ls w) = prototype w"
  by (induction ls arbitrary: w) auto

lemma strict_eq_imp_eq: "strict_eq a b \<Longrightarrow> a = b"
  by (cases "(a, b)" rule: strict_eq.cases) auto

text \<open>Only \<open>__proto__\<close> is inherited as an accessor, and only from an object.\<close>

lemma inherit_Accessor:
  "inherit env h p key = Accessor \<Longrightarrow> key = ''__proto__'' \<and> (\<exists>a. p = Ref a)"
  by (auto simp: inherit_def prototype_chain_def split: option.splits if_splits jsval.splits)

lemma get_cong:
  "state w' = state w \<Longrightarrow> heap w' = heap w \<Longrightarrow> prototype w' = prototype w \<Longrightarrow>
     get env w' k = get env w k"
  by (auto simp: get_def split: option.splits inherited.splits)

lemma assign_rest:
  "version (assign env k v w) = version w \<and> listeners (assign env k v w) = listeners w \<and>
   trace (assign env k v w) = trace w \<and> heap (assign env k v w) = heap w \<and>
   cache (assign env k v w) = cache w"
  by (simp add: assign_def split: jsval.splits)

text \<open>The assignment stores the value as an own property unless the setter takes it.\<close>

lemma assign_stores:
  "map_of (state w) k \<noteq> None \<or> inherit env (heap w) (prototype w) k \<noteq> Accessor \<Longrightarrow>
     assign env k v w = w\<lparr>state := prop_set (state w) k v\<rparr>"
  by (auto simp: assign_def)

lemma get_stored:
  "get env (w\<lparr>state := prop_set (state w) k v\<rparr>) k' = (if k' = k then v else get env w k')"
  by (auto simp: get_def map_of_prop_set split: option.splits inherited.splits)

lemma set'_changed:
  assumes "\<not> strict_eq (get env w k) v"
  shows "state (set' env k v w) = state (assign env k v w)"
    and "prototype (set' env k v w) = prototype (assign env k v w)"
    and "version (set' env k v w) = version w + 1"
    and "listeners (set' env k v w) = listeners w"
    and "heap (set' env k v w) = heap w"
    and "cache (set' env k v w) = cache w"
    and "trace (set' env k v w) =
           trace w @ map (\<lambda>l. Notified l (version w + 1) (state (assign env k v w))) (listeners w)"
  using assms
  by (simp_all add: set'_def forEach_listener_rest forEach_listener_trace assign_rest)

lemma get_set'_stored:
  assumes ne: "\<not> strict_eq (get env w k) v"
    and st: "assign env k v w = w\<lparr>state := prop_set (state w) k v\<rparr>"
  shows "get env (set' env k v w) k' = (if k' = k then v else get env w k')"
proof -
  have "get env (set' env k v w) k' = get env (w\<lparr>state := prop_set (state w) k v\<rparr>) k'"
    by (rule get_cong) (simp_all add: set'_changed [OF ne] st)
  then show ?thesis
    by (simp add: get_stored)
qed

text \<open>
  C1, as the code has it. \<open>set(k, v)\<close> changes nothing at all when the value read under
  \<open>k\<close>, an own property of the state object or one it inherits, is \<open>===\<close> to \<open>v\<close>.
  Otherwise the version counter grows by exactly one, the subscriber list, the heap and
  the selector caches are kept, and the calls made are one per subscription, in
  registration order, each with the new version as argument and each reading the state
  as the assignment has left it. For every key other than \<open>__proto__\<close> the assignment
  stores \<open>v\<close> under \<open>k\<close> as an own property and changes no other key.
\<close>

theorem set_commits_then_notifies:
  "(strict_eq (get env w k) v \<longrightarrow> set' env k v w = w) \<and>
   (\<not> strict_eq (get env w k) v \<longrightarrow>
      version (set' env k v w) = version w + 1 \<and>
      listeners (set' env k v w) = listeners w \<and>
      heap (set' env k v w) = heap w \<and> cache (set' env k v w) = cache w \<and>
      trace (set' env k v w) =
        trace w @ map (\<lambda>l. Notified l (version w + 1) (state (set' env k v w))) (listeners w) \<and>
      (k \<noteq> ''__proto__'' \<longrightarrow>
         get env (set' env k v w) k = v \<and>
         (\<forall>k'. k' \<noteq> k \<longrightarrow> get env (set' env k v w) k' = get env w k') \<and>
         state (set' env k v w) = prop_set (state w) k v \<and>
         map_of (state (set' env k v w)) k = Some v \<and>
         prototype (set' env k v w) = prototype w))"
proof (intro conjI impI)
  assume "strict_eq (get env w k) v"
  then show "set' env k v w = w"
    by (simp add: set'_def)
next
  assume ne: "\<not> strict_eq (get env w k) v"
  note ch = set'_changed [OF ne]
  show "version (set' env k v w) = version w + 1" by (rule ch)
  show "listeners (set' env k v w) = listeners w" by (rule ch)
  show "heap (set' env k v w) = heap w" by (rule ch)
  show "cache (set' env k v w) = cache w" by (rule ch)
  show "trace (set' env k v w) =
      trace w @ map (\<lambda>l. Notified l (version w + 1) (state (set' env k v w))) (listeners w)"
    by (simp add: ch)
  assume k: "k \<noteq> ''__proto__''"
  then have "inherit env (heap w) (prototype w) k \<noteq> Accessor"
    using inherit_Accessor by blast
  then have st: "assign env k v w = w\<lparr>state := prop_set (state w) k v\<rparr>"
    by (simp add: assign_stores)
  show "get env (set' env k v w) k = v"
    by (simp add: get_set'_stored [OF ne st])
  show "\<forall>k'. k' \<noteq> k \<longrightarrow> get env (set' env k v w) k' = get env w k'"
    by (simp add: get_set'_stored [OF ne st])
  show "state (set' env k v w) = prop_set (state w) k v"
    by (simp add: ch st)
  show "map_of (state (set' env k v w)) k = Some v"
    by (simp add: ch st map_of_prop_set)
  show "prototype (set' env k v w) = prototype w"
    by (simp add: ch st)
qed

lemmas store_defs =
  set'_def get_def assign_def inherit_def prototype_chain_def has_own_def cell_at_def
  subscribe_def constructor_def

lemma two_listeners_eval:
  "two_listeners =
     \<lparr>state = [(''timestamp'', Num (Fin 1))], prototype = Ref 100, version = 1, listeners = [7, 9],
      trace = [Notified 7 1 [(''timestamp'', Num (Fin 1))], Notified 9 1 [(''timestamp'', Num (Fin 1))]],
      heap = [], cache = (\<lambda>s. None)\<rparr>"
  by (simp add: two_listeners_def plain_env_def store_defs)

lemma fresh_loader_eval:
  "fresh_loader =
     \<lparr>state = [], prototype = Ref 0, version = 0, listeners = [7], trace = [],
      heap = realm_heap, cache = (\<lambda>s. None)\<rparr>"
  by (simp add: fresh_loader_def realm_env_def plain_env_def store_defs)

text \<open>
  Two listeners; the key \<open>timestamp\<close> holds 1. Setting 1 again changes nothing; setting
  2 stores it, moves the version from 1 to 2 and calls listener 7, then listener 9, once
  each with argument 2, both reading the state with 2 in it. And a new loader, which
  reads the function \<open>Object.prototype.toString\<close> under \<open>toString\<close>:
  \<open>set('toString', undefined)\<close> is not a no-op; it stores \<open>undefined\<close> as an own
  property, moves the version to 1 and calls the listener.
\<close>

theorem set_commits_then_notifies_witness:
  "strict_eq (get plain_env two_listeners ''timestamp'') (Num (Fin 1)) \<and>
   set' plain_env ''timestamp'' (Num (Fin 1)) two_listeners = two_listeners \<and>
   \<not> strict_eq (get plain_env two_listeners ''timestamp'') (Num (Fin 2)) \<and>
   ''timestamp'' \<noteq> ''__proto__'' \<and>
   get plain_env (set' plain_env ''timestamp'' (Num (Fin 2)) two_listeners) ''timestamp'' = Num (Fin 2) \<and>
   version (set' plain_env ''timestamp'' (Num (Fin 2)) two_listeners) = 2 \<and>
   trace (set' plain_env ''timestamp'' (Num (Fin 2)) two_listeners) =
     trace two_listeners @
       [Notified 7 2 [(''timestamp'', Num (Fin 2))], Notified 9 2 [(''timestamp'', Num (Fin 2))]] \<and>
   get realm_env fresh_loader ''toString'' = Ref 2 \<and>
   \<not> strict_eq (get realm_env fresh_loader ''toString'') Undefined \<and>
   ''toString'' \<noteq> ''__proto__'' \<and>
   get realm_env (set' realm_env ''toString'' Undefined fresh_loader) ''toString'' = Undefined \<and>
   version (set' realm_env ''toString'' Undefined fresh_loader) = 1 \<and>
   trace (set' realm_env ''toString'' Undefined fresh_loader) = [Notified 7 1 [(''toString'', Undefined)]]"
proof -
  have same: "strict_eq (get plain_env two_listeners ''timestamp'') (Num (Fin 1))"
    by (simp add: two_listeners_eval get_def)
  have other: "\<not> strict_eq (get plain_env two_listeners ''timestamp'') (Num (Fin 2))"
    by (simp add: two_listeners_eval get_def)
  have key: "''timestamp'' \<noteq> ''__proto__''"
    by simp
  from same set_commits_then_notifies [of plain_env two_listeners "''timestamp''" "Num (Fin 1)"]
  have noop: "set' plain_env ''timestamp'' (Num (Fin 1)) two_listeners = two_listeners"
    by blast
  from other key set_commits_then_notifies [of plain_env two_listeners "''timestamp''" "Num (Fin 2)"]
  have "get plain_env (set' plain_env ''timestamp'' (Num (Fin 2)) two_listeners) ''timestamp'' = Num (Fin 2) \<and>
        version (set' plain_env ''timestamp'' (Num (Fin 2)) two_listeners) = version two_listeners + 1 \<and>
        state (set' plain_env ''timestamp'' (Num (Fin 2)) two_listeners) =
          prop_set (state two_listeners) ''timestamp'' (Num (Fin 2)) \<and>
        trace (set' plain_env ''timestamp'' (Num (Fin 2)) two_listeners) =
          trace two_listeners @
            map (\<lambda>l. Notified l (version two_listeners + 1)
                   (state (set' plain_env ''timestamp'' (Num (Fin 2)) two_listeners)))
              (listeners two_listeners)"
    by blast
  then have first: "get plain_env (set' plain_env ''timestamp'' (Num (Fin 2)) two_listeners) ''timestamp'' = Num (Fin 2) \<and>
      version (set' plain_env ''timestamp'' (Num (Fin 2)) two_listeners) = 2 \<and>
      trace (set' plain_env ''timestamp'' (Num (Fin 2)) two_listeners) =
        trace two_listeners @
          [Notified 7 2 [(''timestamp'', Num (Fin 2))], Notified 9 2 [(''timestamp'', Num (Fin 2))]]"
    by (simp add: two_listeners_eval)
  have inh: "get realm_env fresh_loader ''toString'' = Ref 2"
    by (simp add: fresh_loader_eval realm_heap_def realm_env_def plain_env_def index_of_def
        digit_val_def own_get_def prop_get_def store_defs)
  then have differs: "\<not> strict_eq (get realm_env fresh_loader ''toString'') Undefined"
    by simp
  have key': "''toString'' \<noteq> ''__proto__''"
    by simp
  from differs key' set_commits_then_notifies [of realm_env fresh_loader "''toString''" Undefined]
  have "get realm_env (set' realm_env ''toString'' Undefined fresh_loader) ''toString'' = Undefined \<and>
        version (set' realm_env ''toString'' Undefined fresh_loader) = version fresh_loader + 1 \<and>
        state (set' realm_env ''toString'' Undefined fresh_loader) =
          prop_set (state fresh_loader) ''toString'' Undefined \<and>
        trace (set' realm_env ''toString'' Undefined fresh_loader) =
          trace fresh_loader @
            map (\<lambda>l. Notified l (version fresh_loader + 1)
                   (state (set' realm_env ''toString'' Undefined fresh_loader)))
              (listeners fresh_loader)"
    by blast
  then have second: "get realm_env (set' realm_env ''toString'' Undefined fresh_loader) ''toString'' = Undefined \<and>
      version (set' realm_env ''toString'' Undefined fresh_loader) = 1 \<and>
      trace (set' realm_env ''toString'' Undefined fresh_loader) =
        [Notified 7 1 [(''toString'', Undefined)]]"
    by (simp add: fresh_loader_eval)
  from same noop other key first inh differs key' second show ?thesis
    by blast
qed

lemma nan_stored_eval:
  "nan_stored =
     \<lparr>state = [(''x'', Num NaN)], prototype = Ref 100, version = 1, listeners = [7],
      trace = [Notified 7 1 [(''x'', Num NaN)]], heap = [], cache = (\<lambda>s. None)\<rparr>"
  by (simp add: nan_stored_def plain_env_def store_defs)

text \<open>
  C1 as the specification words it takes "identical" to be equality of values, and has
  every key commit. The code compares with \<open>!==\<close>, under which \<open>NaN\<close> differs from
  itself: with \<open>NaN\<close> stored under \<open>x\<close> and one listener, \<open>set('x', NaN)\<close> is given the
  identical value and yet moves the version from 1 to 2 and calls the listener again.
  And the state is an object: in a new loader its key \<open>__proto__\<close> reads as
  \<open>Object.prototype\<close>, which is not the number 5, so \<open>set('__proto__', 5)\<close> moves the
  version from 0 to 1 and calls the listener; but the assignment goes to the inherited
  setter, which ignores a number: nothing is stored and the key reads as before.
\<close>

theorem set_nan_and_proto_counterexample:
  "identical (get plain_env nan_stored ''x'') (Num NaN) \<and>
   set' plain_env ''x'' (Num NaN) nan_stored \<noteq> nan_stored \<and>
   version nan_stored = 1 \<and>
   version (set' plain_env ''x'' (Num NaN) nan_stored) = 2 \<and>
   trace (set' plain_env ''x'' (Num NaN) nan_stored) =
     trace nan_stored @ [Notified 7 2 [(''x'', Num NaN)]] \<and>
   get realm_env fresh_loader ''__proto__'' = Ref 0 \<and>
   \<not> identical (get realm_env fresh_loader ''__proto__'') (Num (Fin 5)) \<and>
   version fresh_loader = 0 \<and>
   version (set' realm_env ''__proto__'' (Num (Fin 5)) fresh_loader) = 1 \<and>
   trace (set' realm_env ''__proto__'' (Num (Fin 5)) fresh_loader) = [Notified 7 1 []] \<and>
   state (set' realm_env ''__proto__'' (Num (Fin 5)) fresh_loader) = [] \<and>
   get realm_env (set' realm_env ''__proto__'' (Num (Fin 5)) fresh_loader) ''__proto__'' = Ref 0"
proof -
  have v: "version (set' plain_env ''x'' (Num NaN) nan_stored) = 2"
    by (simp add: nan_stored_eval plain_env_def store_defs forEach_listener_rest)
  have "version nan_stored = 1"
    by (simp add: nan_stored_eval)
  with v have "set' plain_env ''x'' (Num NaN) nan_stored \<noteq> nan_stored"
    by auto
  moreover have "trace (set' plain_env ''x'' (Num NaN) nan_stored) =
     trace nan_stored @ [Notified 7 2 [(''x'', Num NaN)]]"
    by (simp add: nan_stored_eval plain_env_def store_defs)
  moreover have "identical (get plain_env nan_stored ''x'') (Num NaN)"
    by (simp add: nan_stored_eval get_def identical_def)
  moreover have p: "get realm_env fresh_loader ''__proto__'' = Ref 0"
    by (simp add: fresh_loader_eval realm_heap_def realm_env_def plain_env_def index_of_def
        digit_val_def own_get_def prop_get_def store_defs)
  moreover have after: "set' realm_env ''__proto__'' (Num (Fin 5)) fresh_loader =
      fresh_loader\<lparr>version := 1, trace := [Notified 7 1 []]\<rparr>"
    by (simp add: fresh_loader_eval realm_heap_def realm_env_def plain_env_def index_of_def
        digit_val_def own_get_def prop_get_def store_defs)
  moreover have "get realm_env (fresh_loader\<lparr>version := 1, trace := [Notified 7 1 []]\<rparr>)
        ''__proto__'' = get realm_env fresh_loader ''__proto__''"
    by (rule get_cong) simp_all
  ultimately show ?thesis
    using v by (simp add: identical_def fresh_loader_eval nan_stored_eval)
qed

text \<open>
  C10. When \<open>NaN\<close> is stored under \<open>k\<close>, \<open>set(k, NaN)\<close> is not a no-op: the version
  counter grows by one and every subscription is called with the new version, although
  the value stored under \<open>k\<close> after the call is the one stored before it.
\<close>

theorem set_nan_always_notifies:
  "get env w k = Num NaN \<Longrightarrow>
     version (set' env k (Num NaN) w) = version w + 1 \<and>
     trace (set' env k (Num NaN) w) =
       trace w @ map (\<lambda>l. Notified l (version w + 1) (state (set' env k (Num NaN) w))) (listeners w) \<and>
     get env (set' env k (Num NaN) w) k = get env w k \<and>
     set' env k (Num NaN) w \<noteq> w"
proof -
  assume nan: "get env w k = Num NaN"
  then have ne: "\<not> strict_eq (get env w k) (Num NaN)"
    by simp
  note ch = set'_changed [OF ne]
  have v: "version (set' env k (Num NaN) w) = version w + 1"
    by (rule ch)
  have t: "trace (set' env k (Num NaN) w) =
       trace w @ map (\<lambda>l. Notified l (version w + 1) (state (set' env k (Num NaN) w))) (listeners w)"
    by (simp add: ch)
  have "map_of (state w) k \<noteq> None \<or> inherit env (heap w) (prototype w) k \<noteq> Accessor"
  proof (rule ccontr)
    assume "\<not> (map_of (state w) k \<noteq> None \<or> inherit env (heap w) (prototype w) k \<noteq> Accessor)"
    then have none: "map_of (state w) k = None"
      and acc: "inherit env (heap w) (prototype w) k = Accessor"
      by auto
    from none acc have "get env w k = prototype w"
      by (simp add: get_def)
    moreover from inherit_Accessor [OF acc] obtain a where "prototype w = Ref a"
      by blast
    ultimately show False
      using nan by simp
  qed
  then have st: "assign env k (Num NaN) w = w\<lparr>state := prop_set (state w) k (Num NaN)\<rparr>"
    by (rule assign_stores)
  have g: "get env (set' env k (Num NaN) w) k = get env w k"
    using nan by (simp add: get_set'_stored [OF ne st])
  from v have "set' env k (Num NaN) w \<noteq> w"
    by auto
  with v t g show ?thesis
    by blast
qed

theorem set_nan_always_notifies_witness:
  "get plain_env nan_stored ''x'' = Num NaN \<and>
   version (set' plain_env ''x'' (Num NaN) nan_stored) = 2 \<and>
   trace (set' plain_env ''x'' (Num NaN) nan_stored) =
     [Notified 7 1 [(''x'', Num NaN)], Notified 7 2 [(''x'', Num NaN)]]"
proof -
  have nan: "get plain_env nan_stored ''x'' = Num NaN"
    by (simp add: nan_stored_eval get_def)
  have st: "state (set' plain_env ''x'' (Num NaN) nan_stored) = [(''x'', Num NaN)]"
    by (simp add: nan_stored_eval plain_env_def store_defs forEach_listener_rest)
  from set_nan_always_notifies [OF nan] st show ?thesis
    using nan by (simp add: nan_stored_eval)
qed

section \<open>Properties of the converter\<close>

lemma map_indexed_Inr:
  "map_indexed f n xs = Inr ys \<Longrightarrow>
     length ys = length xs \<and> (\<forall>j<length xs. f (n + j) (xs ! j) = Inr (ys ! j))"
proof (induction xs arbitrary: n ys)
  case Nil
  then show ?case by simp
next
  case (Cons x xs)
  from Cons.prems obtain y ys' where
    y: "f n x = Inr y" and r: "map_indexed f (Suc n) xs = Inr ys'" and ys: "ys = y # ys'"
    by (auto split: sum.splits)
  from Cons.IH [OF r] have len: "length ys' = length xs"
    and ih: "\<forall>j<length xs. f (Suc n + j) (xs ! j) = Inr (ys' ! j)"
    by auto
  show ?case
  proof (intro conjI allI impI)
    show "length ys = length (x # xs)" using len ys by simp
  next
    fix j assume "j < length (x # xs)"
    then show "f (n + j) ((x # xs) ! j) = Inr (ys ! j)"
      using y ih ys by (cases j) auto
  qed
qed

lemma map_indexed_total:
  "(\<And>i x. \<exists>y. f i x = Inr y) \<Longrightarrow> \<exists>ys. map_indexed f n xs = Inr ys"
proof (induction xs arbitrary: n)
  case Nil
  then show ?case by simp
next
  case (Cons x xs)
  from Cons.prems obtain y where "f n x = Inr y" by blast
  moreover from Cons.IH [OF Cons.prems] obtain ys where "map_indexed f (Suc n) xs = Inr ys"
    by blast
  ultimately show ?case by simp
qed

text \<open>
  What the specification states of the offsets: the anchor has the offset \<open>(0, 0)\<close>
  from itself (4.3), and moving both poses by the same offset changes nothing (8).
\<close>

lemma displacement_self: "displacement a a = 0"
  by (simp add: displacement_def split: jsnum.splits)

lemma getPoseOffset_self: "getPoseOffset p p = (Fin 0, Fin 0)"
  by (simp add: getPoseOffset_def displacement_self)

lemma displacement_translated:
  "displacement (jadd a (Fin c)) (jadd b (Fin c)) = displacement a b"
  by (cases a; cases b) (simp_all add: displacement_def)

lemma getPoseOffset_translated:
  "getPoseOffset (translated a b p1) (translated a b p2) = getPoseOffset p1 p2"
  by (simp add: getPoseOffset_def translated_def displacement_translated)

lemma convertTrajectory_Inr:
  "\<exists>vs. convertTrajectory motions = Inr vs \<and> length vs = length motions \<and>
        (\<forall>j<length motions. vs ! j = getPoseOffset (motions ! 0) (motions ! j))"
proof -
  let ?f = "\<lambda>(i::nat) m. (Inr (getPoseOffset (motions ! 0) m) :: error + vertex)"
  have "\<And>i x. \<exists>y. ?f i x = Inr y"
    by simp
  from map_indexed_total [of ?f 0 motions, OF this]
  obtain vs where vs: "convertTrajectory motions = Inr vs"
    unfolding convertTrajectory_def by blast
  from map_indexed_Inr [OF vs [unfolded convertTrajectory_def]] vs show ?thesis
    by auto
qed

text \<open>
  C6, as the code has it. \<open>_convertPoseEntry\<close> never fails. Every numeric field of
  the pose, the velocity and the acceleration is \<open>Number(...)\<close> of the packet's property
  of that field: \<open>NaN\<close> when the property is missing, the number itself when it is a
  number. The three time fields carry the timestamp as it was given, uncoerced.
\<close>

theorem decode_coerces_never_fails:
  "\<exists>r. convertPoseEntry env oxts ts = Inr r \<and>
       time (pose r) = ts \<and> velocity.timestamp (velocity r) = ts \<and>
       acceleration.timestamp (acceleration r) = ts \<and>
       (\<forall>(f, field) \<in> set decoded_fields.
          field r = Number env (prop_get oxts f) \<and>
          (map_of oxts f = None \<longrightarrow> field r = NaN) \<and>
          (\<forall>n. map_of oxts f = Some (Num n) \<longrightarrow> field r = n))"
  by (simp add: convertPoseEntry_def decoded_fields_def Number_def prop_get_def)

theorem decode_coerces_never_fails_witness:
  "(case convertPoseEntry plain_env short_packet (Num (Fin 7)) of
      Inl e \<Rightarrow> False
    | Inr r \<Rightarrow> time (pose r) = Num (Fin 7) \<and> latitude (pose r) = Fin 49 \<and>
        yaw (pose r) = Fin 0 \<and> acceleration_forward (acceleration r) = NaN)"
proof -
  from decode_coerces_never_fails [of plain_env short_packet "Num (Fin 7)"]
  obtain r where r: "convertPoseEntry plain_env short_packet (Num (Fin 7)) = Inr r"
    and t: "time (pose r) = Num (Fin 7)"
    and fields: "\<forall>(f, field) \<in> set decoded_fields.
          field r = Number plain_env (prop_get short_packet f) \<and>
          (map_of short_packet f = None \<longrightarrow> field r = NaN) \<and>
          (\<forall>n. map_of short_packet f = Some (Num n) \<longrightarrow> field r = n)"
    by blast
  from fields have "latitude (pose r) = Fin 49 \<and> yaw (pose r) = Fin 0 \<and>
      acceleration_forward (acceleration r) = NaN"
    by (auto simp: decoded_fields_def short_packet_def)
  with r t show ?thesis by simp
qed

text \<open>
  C6 as the specification words it has a missing field fail with \<open>MalformedSample\<close>.
  The packet without a longitude is decoded all the same, and the longitude of the pose
  is \<open>NaN\<close>.
\<close>

theorem decode_missing_field_counterexample:
  "(case convertPoseEntry plain_env short_packet (Num (Fin 7)) of
      Inl e \<Rightarrow> False
    | Inr r \<Rightarrow> longitude (pose r) = NaN)"
  by (simp add: convertPoseEntry_def short_packet_def prop_get_def Number_def)

text \<open>
  The recording of the specification's scenario (8): the vertices are \<open>(0, 0)\<close>,
  \<open>(10, 0)\<close> and \<open>(10, 10)\<close>.
\<close>

lemma three_frame_recording:
  "convertTrajectory [first_pose, second_pose, third_pose] =
     Inr [(Fin 0, Fin 0), (Fin 10, Fin 0), (Fin 10, Fin 10)]"
  by (simp add: convertTrajectory_def getPoseOffset_def displacement_def heading_def
      first_pose_def second_pose_def third_pose_def)

text \<open>
  C7, as the code has it. An empty window gives the empty list of vertices and no
  error. A window of one pose gives exactly one vertex, and that vertex is \<open>(0, 0)\<close>.
\<close>

theorem trajectory_of_short_windows:
  "convertTrajectory [] = Inr [] \<and> convertTrajectory [p] = Inr [(Fin 0, Fin 0)]"
  by (simp add: convertTrajectory_def getPoseOffset_self)

theorem trajectory_of_short_windows_witness:
  "convertTrajectory [second_pose] = Inr [(Fin 0, Fin 0)]"
  using trajectory_of_short_windows [of second_pose] by simp

text \<open>
  C7 as the specification words it has the empty window fail. \<open>_convertTrajectory\<close>
  maps over the window: for the empty window it returns the empty list, and it raises
  nothing.
\<close>

theorem trajectory_empty_window_counterexample:
  "convertTrajectory [] = Inr [] \<and> convertTrajectory [] \<noteq> Inl EmptyTrajectoryWindow"
  by (simp add: convertTrajectory_def)

text \<open>
  C8. For every non-empty window the trajectory has one vertex for each pose of the
  window, in the order of the window; the anchor is the first pose of the window, each
  vertex is the offset of its pose from the anchor, and the first vertex is \<open>(0, 0)\<close>:
  the offset of the anchor from itself.
\<close>

theorem trajectory_starts_at_origin:
  "motions \<noteq> [] \<Longrightarrow>
     \<exists>vs. convertTrajectory motions = Inr vs \<and> length vs = length motions \<and>
          (\<forall>j<length motions. vs ! j = getPoseOffset (motions ! 0) (motions ! j)) \<and>
          vs ! 0 = (Fin 0, Fin 0)"
proof -
  assume ne: "motions \<noteq> []"
  from convertTrajectory_Inr [of motions] obtain vs where
    vs: "convertTrajectory motions = Inr vs" and len: "length vs = length motions"
    and at: "\<forall>j<length motions. vs ! j = getPoseOffset (motions ! 0) (motions ! j)"
    by blast
  from ne at have "vs ! 0 = getPoseOffset (motions ! 0) (motions ! 0)"
    by simp
  then have "vs ! 0 = (Fin 0, Fin 0)"
    by (simp add: getPoseOffset_self)
  with vs len at show ?thesis by blast
qed

text \<open>The three-frame recording: three vertices, the first of them \<open>(0, 0)\<close>.\<close>

theorem trajectory_starts_at_origin_witness:
  "[first_pose, second_pose, third_pose] \<noteq> [] \<and>
   (case convertTrajectory [first_pose, second_pose, third_pose] of
      Inl e \<Rightarrow> False
    | Inr vs \<Rightarrow> length vs = 3 \<and> vs ! 0 = (Fin 0, Fin 0) \<and>
        vs ! 2 = getPoseOffset first_pose third_pose)"
proof -
  from trajectory_starts_at_origin [of "[first_pose, second_pose, third_pose]"]
  obtain vs where "convertTrajectory [first_pose, second_pose, third_pose] = Inr vs"
    and "length vs = 3" and "vs ! 0 = (Fin 0, Fin 0)"
    and "\<forall>j<3. vs ! j = getPoseOffset ([first_pose, second_pose, third_pose] ! 0)
                        ([first_pose, second_pose, third_pose] ! j)"
    by auto
  then show ?thesis
    by simp
qed

text \<open>
  C9. \<open>load\<close> succeeds, keeps the timestamps it was given and builds one frame for every
  packet; the pose, the velocity and the acceleration of frame \<open>i\<close> all carry
  \<open>timestamps[i]\<close>.
\<close>

theorem load_frames_carry_timestamps:
  "\<exists>c. load env ts packets = Inr c \<and> timestamps c = ts \<and>
       length (poses c) = length packets \<and>
       (\<forall>i<length (poses c).
          time (pose (poses c ! i)) = element (timestamps c) i \<and>
          velocity.timestamp (velocity (poses c ! i)) = element (timestamps c) i \<and>
          acceleration.timestamp (acceleration (poses c ! i)) = element (timestamps c) i)"
proof -
  let ?f = "\<lambda>i oxts. convertPoseEntry env oxts (element ts i)"
  have "\<And>i x. \<exists>y. ?f i x = Inr y"
    by (simp add: convertPoseEntry_def)
  from map_indexed_total [of ?f 0 packets, OF this]
  obtain ps where ps: "map_indexed ?f 0 packets = Inr ps"
    by blast
  from map_indexed_Inr [OF ps] have len: "length ps = length packets"
    and at: "\<forall>j<length packets. ?f j (packets ! j) = Inr (ps ! j)"
    by auto
  have "\<forall>i<length ps.
          time (pose (ps ! i)) = element ts i \<and>
          velocity.timestamp (velocity (ps ! i)) = element ts i \<and>
          acceleration.timestamp (acceleration (ps ! i)) = element ts i"
  proof (intro allI impI)
    fix i assume "i < length ps"
    with len at have "convertPoseEntry env (packets ! i) (element ts i) = Inr (ps ! i)"
      by simp
    then have "ps ! i = projr (convertPoseEntry env (packets ! i) (element ts i))"
      by simp
    then show "time (pose (ps ! i)) = element ts i \<and>
          velocity.timestamp (velocity (ps ! i)) = element ts i \<and>
          acceleration.timestamp (acceleration (ps ! i)) = element ts i"
      by (simp add: convertPoseEntry_def)
  qed
  with ps len show ?thesis
    by (simp add: load_def)
qed

text \<open>Two files, two timestamps.\<close>

theorem load_frames_carry_timestamps_witness:
  "(case load plain_env [Num (Fin 0), Num (Fin 100)] [short_packet, []] of
      Inl e \<Rightarrow> False
    | Inr c \<Rightarrow> length (poses c) = 2 \<and>
        time (pose (poses c ! 0)) = Num (Fin 0) \<and>
        time (pose (poses c ! 1)) = Num (Fin 100) \<and>
        velocity.timestamp (velocity (poses c ! 1)) = Num (Fin 100) \<and>
        acceleration.timestamp (acceleration (poses c ! 1)) = Num (Fin 100))"
proof -
  from load_frames_carry_timestamps [of plain_env "[Num (Fin 0), Num (Fin 100)]" "[short_packet, []]"]
  obtain c where c: "load plain_env [Num (Fin 0), Num (Fin 100)] [short_packet, []] = Inr c"
    and ts: "timestamps c = [Num (Fin 0), Num (Fin 100)]"
    and len: "length (poses c) = 2"
    and at: "\<forall>i<length (poses c).
          time (pose (poses c ! i)) = element (timestamps c) i \<and>
          velocity.timestamp (velocity (poses c ! i)) = element (timestamps c) i \<and>
          acceleration.timestamp (acceleration (poses c ! i)) = element (timestamps c) i"
    by auto
  from at len have "time (pose (poses c ! 0)) = element (timestamps c) 0"
    and "time (pose (poses c ! 1)) = element (timestamps c) 1"
    and "velocity.timestamp (velocity (poses c ! 1)) = element (timestamps c) 1"
    and "acceleration.timestamp (acceleration (poses c ! 1)) = element (timestamps c) 1"
    by auto
  with c ts len show ?thesis
    by (simp add: element_def)
qed

section \<open>Properties of the time cursor\<close>

lemmas loader_defs =
  setMetadata_def constructor_def set'_def get_def assign_def inherit_def prototype_chain_def
  has_own_def prop_get_def isFinite_def get_prop_def
  cell_at_def own_get_def seek_def truthy_def getLogStartTime_def getLogEndTime_def
  createSelector_def getMetadata_def getLogSynchronizer_def getCurrentTime_def getStreams_def
  recomputed_def getLogStartTime_fn_def getLogEndTime_fn_def plus_def numeric_def Number_def
  clamp_def Math_max_def Math_min_def same_inputs_def set_prop_def invoke_def index_of_def
  digit_val_def

lemma get_set'_same: "k \<noteq> ''__proto__'' \<Longrightarrow> get env (set' env k v w) k = v"
proof (cases "strict_eq (get env w k) v")
  case True
  then show ?thesis
    by (auto simp: set'_def dest: strict_eq_imp_eq)
next
  case False
  assume "k \<noteq> ''__proto__''"
  then have "inherit env (heap w) (prototype w) k \<noteq> Accessor"
    using inherit_Accessor by blast
  then have "assign env k v w = w\<lparr>state := prop_set (state w) k v\<rparr>"
    by (simp add: assign_stores)
  from get_set'_stored [OF False this] show ?thesis
    by simp
qed

lemma set'_heap_cache: "heap (set' env k v w) = heap w \<and> cache (set' env k v w) = cache w"
  by (simp add: set'_def forEach_listener_rest assign_rest)

lemma same_inputs_imp_eq: "same_inputs prev ins \<Longrightarrow> prev = ins"
  unfolding same_inputs_def
  by (induction prev ins rule: list_all2_induct) (auto dest: strict_eq_imp_eq)

lemma truthy_get_prop: "truthy v \<Longrightarrow> \<exists>x. get_prop h v key = Inr x"
  by (cases v) (auto simp: truthy_def get_prop_def)

lemma getLogStartTime_fn_Inr: "\<exists>r. getLogStartTime_fn env m h = (Inr r, h)"
  using truthy_get_prop [of m h "''start_time''"]
  by (auto simp: getLogStartTime_fn_def)

lemma getLogEndTime_fn_Inr: "\<exists>r. getLogEndTime_fn m h = (Inr r, h)"
  using truthy_get_prop [of m h "''end_time''"]
  by (auto simp: getLogEndTime_fn_def)

lemma get_cache_update: "get env (w\<lparr>cache := c\<rparr>) k = get env w k"
  by (rule get_cong) simp_all

text \<open>A read of \<open>getLogStartTime\<close> or \<open>getLogEndTime\<close> returns the memoized result.\<close>

lemma getLogStartTime_memoized:
  assumes r: "getLogStartTime_fn env (get env w ''metadata'') (heap w) = (Inr r, heap w)"
  shows "\<exists>c. getLogStartTime env w =
               (Inr (memoized w LogStartTime [get env w ''metadata''] r), w\<lparr>cache := c\<rparr>) \<and>
             c LogEndTime = cache w LogEndTime"
proof -
  let ?c = "(cache w)(LogStartTime \<mapsto> ([get env w ''metadata''], r))"
  have fresh: "recomputed LogStartTime (\<lambda>ins. getLogStartTime_fn env (ins ! 0))
      [get env w ''metadata''] w = (Inr r, w\<lparr>cache := ?c\<rparr>)"
    using r by (simp add: recomputed_def)
  show ?thesis
  proof (cases "cache w LogStartTime")
    case None
    with fresh have "getLogStartTime env w =
        (Inr (memoized w LogStartTime [get env w ''metadata''] r), w\<lparr>cache := ?c\<rparr>) \<and>
        ?c LogEndTime = cache w LogEndTime"
      by (simp add: getLogStartTime_def createSelector_def getMetadata_def memoized_def)
    then show ?thesis by blast
  next
    case (Some p)
    obtain prev r' where p: "p = (prev, r')" by (cases p)
    show ?thesis
    proof (cases "same_inputs prev [get env w ''metadata'']")
      case True
      with Some p have "getLogStartTime env w =
          (Inr (memoized w LogStartTime [get env w ''metadata''] r), w\<lparr>cache := cache w\<rparr>) \<and>
          cache w LogEndTime = cache w LogEndTime"
        by (simp add: getLogStartTime_def createSelector_def getMetadata_def memoized_def)
      then show ?thesis by blast
    next
      case False
      with Some p fresh have "getLogStartTime env w =
          (Inr (memoized w LogStartTime [get env w ''metadata''] r), w\<lparr>cache := ?c\<rparr>) \<and>
          ?c LogEndTime = cache w LogEndTime"
        by (simp add: getLogStartTime_def createSelector_def getMetadata_def memoized_def)
      then show ?thesis by blast
    qed
  qed
qed

lemma getLogEndTime_memoized:
  assumes r: "getLogEndTime_fn (get env w ''metadata'') (heap w) = (Inr r, heap w)"
  shows "\<exists>c. getLogEndTime env w =
               (Inr (memoized w LogEndTime [get env w ''metadata''] r), w\<lparr>cache := c\<rparr>)"
proof -
  let ?c = "(cache w)(LogEndTime \<mapsto> ([get env w ''metadata''], r))"
  have fresh: "recomputed LogEndTime (\<lambda>ins. getLogEndTime_fn (ins ! 0))
      [get env w ''metadata''] w = (Inr r, w\<lparr>cache := ?c\<rparr>)"
    using r by (simp add: recomputed_def)
  show ?thesis
  proof (cases "cache w LogEndTime")
    case None
    with fresh have "getLogEndTime env w =
        (Inr (memoized w LogEndTime [get env w ''metadata''] r), w\<lparr>cache := ?c\<rparr>)"
      by (simp add: getLogEndTime_def createSelector_def getMetadata_def memoized_def)
    then show ?thesis by blast
  next
    case (Some p)
    obtain prev r' where p: "p = (prev, r')" by (cases p)
    show ?thesis
    proof (cases "same_inputs prev [get env w ''metadata'']")
      case True
      with Some p have "getLogEndTime env w =
          (Inr (memoized w LogEndTime [get env w ''metadata''] r), w\<lparr>cache := cache w\<rparr>)"
        by (simp add: getLogEndTime_def createSelector_def getMetadata_def memoized_def)
      then show ?thesis by blast
    next
      case False
      with Some p fresh have "getLogEndTime env w =
          (Inr (memoized w LogEndTime [get env w ''metadata''] r), w\<lparr>cache := ?c\<rparr>)"
        by (simp add: getLogEndTime_def createSelector_def getMetadata_def memoized_def)
      then show ?thesis by blast
    qed
  qed
qed

text \<open>With the caches up to date the memoized result is the result computed now.\<close>

lemma memoized_start_fresh:
  assumes ok: "bounds_cached env w"
    and r: "getLogStartTime_fn env m (heap w) = (Inr r, heap w)"
  shows "memoized w LogStartTime [m] r = r"
proof (cases "cache w LogStartTime")
  case None
  then show ?thesis by (simp add: memoized_def)
next
  case (Some p)
  obtain prev r' where p: "p = (prev, r')" by (cases p)
  show ?thesis
  proof (cases "same_inputs prev [m]")
    case True
    then have "prev = [m]" by (rule same_inputs_imp_eq)
    with ok Some p r have "r' = r"
      by (simp add: bounds_cached_def)
    with Some p show ?thesis by (simp add: memoized_def)
  next
    case False
    with Some p show ?thesis by (simp add: memoized_def)
  qed
qed

lemma memoized_end_fresh:
  assumes ok: "bounds_cached env w"
    and r: "getLogEndTime_fn m (heap w) = (Inr r, heap w)"
  shows "memoized w LogEndTime [m] r = r"
proof (cases "cache w LogEndTime")
  case None
  then show ?thesis by (simp add: memoized_def)
next
  case (Some p)
  obtain prev r' where p: "p = (prev, r')" by (cases p)
  show ?thesis
  proof (cases "same_inputs prev [m]")
    case True
    then have "prev = [m]" by (rule same_inputs_imp_eq)
    with ok Some p r have "r' = r"
      by (simp add: bounds_cached_def)
    with Some p show ?thesis by (simp add: memoized_def)
  next
    case False
    with Some p show ?thesis by (simp add: memoized_def)
  qed
qed

lemma seek_with_metadata:
  assumes t: "truthy (get env w ''metadata'')"
    and st: "get_prop (heap w) (get env w ''metadata'') ''start_time'' = Inr st"
    and en: "get_prop (heap w) (get env w ''metadata'') ''end_time'' = Inr en"
  shows "\<exists>c. seek env ts w =
           (Inr (), set' env ''timestamp''
              (clamp env ts
                 (memoized w LogStartTime [get env w ''metadata''] (plus env st (TIME_WINDOW env)))
                 (memoized w LogEndTime [get env w ''metadata''] en))
              (w\<lparr>cache := c\<rparr>))"
proof -
  have fs: "getLogStartTime_fn env (get env w ''metadata'') (heap w) =
      (Inr (plus env st (TIME_WINDOW env)), heap w)"
    using t st by (simp add: getLogStartTime_fn_def)
  have fe: "getLogEndTime_fn (get env w ''metadata'') (heap w) = (Inr en, heap w)"
    using t en by (simp add: getLogEndTime_fn_def)
  from getLogStartTime_memoized [OF fs] obtain c1 where
    r1: "getLogStartTime env w =
           (Inr (memoized w LogStartTime [get env w ''metadata''] (plus env st (TIME_WINDOW env))),
            w\<lparr>cache := c1\<rparr>)"
    and c1: "c1 LogEndTime = cache w LogEndTime"
    by blast
  let ?w1 = "w\<lparr>cache := c1\<rparr>"
  have fe1: "getLogEndTime_fn (get env ?w1 ''metadata'') (heap ?w1) = (Inr en, heap ?w1)"
    using fe by (simp add: get_cache_update)
  from getLogEndTime_memoized [OF fe1] obtain c2 where
    r2: "getLogEndTime env ?w1 =
           (Inr (memoized ?w1 LogEndTime [get env ?w1 ''metadata''] en), ?w1\<lparr>cache := c2\<rparr>)"
    by blast
  have m: "memoized ?w1 LogEndTime [get env ?w1 ''metadata''] en =
      memoized w LogEndTime [get env w ''metadata''] en"
    using c1 by (simp add: memoized_def get_cache_update)
  from t r1 r2 m have "seek env ts w =
      (Inr (), set' env ''timestamp''
         (clamp env ts
            (memoized w LogStartTime [get env w ''metadata''] (plus env st (TIME_WINDOW env)))
            (memoized w LogEndTime [get env w ''metadata''] en))
         (w\<lparr>cache := c2\<rparr>))"
    by (simp add: seek_def)
  then show ?thesis by blast
qed

lemma bounds_cached_set': "bounds_cached env w \<Longrightarrow> bounds_cached env (set' env k v w)"
  by (auto simp: bounds_cached_def set'_heap_cache split: option.splits)

lemma getLogStartTime_keeps_bounds_cached:
  assumes ok: "bounds_cached env w"
  shows "bounds_cached env (snd (getLogStartTime env w))"
proof -
  obtain r where r: "getLogStartTime_fn env (get env w ''metadata'') (heap w) = (Inr r, heap w)"
    using getLogStartTime_fn_Inr by blast
  have "bounds_cached env (w\<lparr>cache := (cache w)(LogStartTime \<mapsto> ([get env w ''metadata''], r))\<rparr>)"
    using ok r by (auto simp: bounds_cached_def split: option.splits)
  with ok r show ?thesis
    by (auto simp: getLogStartTime_def createSelector_def getMetadata_def recomputed_def
        split: option.splits)
qed

lemma getLogEndTime_keeps_bounds_cached:
  assumes ok: "bounds_cached env w"
  shows "bounds_cached env (snd (getLogEndTime env w))"
proof -
  obtain r where r: "getLogEndTime_fn (get env w ''metadata'') (heap w) = (Inr r, heap w)"
    using getLogEndTime_fn_Inr by blast
  have "bounds_cached env (w\<lparr>cache := (cache w)(LogEndTime \<mapsto> ([get env w ''metadata''], r))\<rparr>)"
    using ok r by (auto simp: bounds_cached_def split: option.splits)
  with ok r show ?thesis
    by (auto simp: getLogEndTime_def createSelector_def getMetadata_def recomputed_def
        split: option.splits)
qed

lemma seek_keeps_bounds_cached:
  assumes ok: "bounds_cached env w"
  shows "bounds_cached env (snd (seek env ts w))"
proof (cases "truthy (get env w ''metadata'')")
  case False
  with ok show ?thesis
    by (simp add: seek_def bounds_cached_set')
next
  case True
  obtain r1 w1 where s1: "getLogStartTime env w = (r1, w1)"
    by (cases "getLogStartTime env w")
  obtain r2 w2 where s2: "getLogEndTime env w1 = (r2, w2)"
    by (cases "getLogEndTime env w1")
  from getLogStartTime_keeps_bounds_cached [OF ok] s1 have ok1: "bounds_cached env w1"
    by simp
  from getLogEndTime_keeps_bounds_cached [OF ok1] s2 have ok2: "bounds_cached env w2"
    by simp
  from True s1 s2 ok1 ok2 show ?thesis
    by (cases r1; cases r2) (simp_all add: seek_def bounds_cached_set')
qed

lemma setMetadata_keeps_bounds_cached:
  "bounds_cached env w \<Longrightarrow> bounds_cached env (snd (setMetadata env m w))"
  by (auto simp: setMetadata_def Let_def bounds_cached_set' seek_keeps_bounds_cached split: sum.splits)

lemma constructor_bounds_cached: "bounds_cached env (constructor env h)"
  by (simp add: bounds_cached_def constructor_def)

text \<open>
  C2, as the code has it. \<open>seek(t)\<close> does not fail. When the value under \<open>metadata\<close> is
  absent (falsy), the value under \<open>timestamp\<close> is \<open>t\<close> afterwards. When it is present,
  the value is \<open>clamp(t, start, end)\<close> for the results of the memoized selectors
  \<open>getLogStartTime\<close> and \<open>getLogEndTime\<close>: the result cached for this metadata value, if
  there is one, and else \<open>metadata.start_time + TIME_WINDOW\<close> and \<open>metadata.end_time\<close>
  as they are now. With the caches up to date this is
  \<open>clamp(t, metadata.start_time + TIME_WINDOW, metadata.end_time)\<close>; then, with a start
  time of 100, a time window of 5 and an end time of 200, \<open>seek(50)\<close> leaves 105,
  \<open>seek(500)\<close> leaves 200 and \<open>seek(150)\<close> leaves 150.
\<close>

theorem seek_stores_clamped:
  "fst (seek env t w) = Inr () \<and>
   (\<not> truthy (get env w ''metadata'') \<longrightarrow> get env (snd (seek env t w)) ''timestamp'' = t) \<and>
   (truthy (get env w ''metadata'') \<longrightarrow>
      (\<exists>start_time end_time.
         get_prop (heap w) (get env w ''metadata'') ''start_time'' = Inr start_time \<and>
         get_prop (heap w) (get env w ''metadata'') ''end_time'' = Inr end_time \<and>
         get env (snd (seek env t w)) ''timestamp'' =
           clamp env t
             (memoized w LogStartTime [get env w ''metadata'']
                (plus env start_time (TIME_WINDOW env)))
             (memoized w LogEndTime [get env w ''metadata''] end_time) \<and>
         (bounds_cached env w \<longrightarrow>
            get env (snd (seek env t w)) ''timestamp'' =
              clamp env t (plus env start_time (TIME_WINDOW env)) end_time))) \<and>
   (bounds_cached env w \<and> truthy (get env w ''metadata'') \<and>
    get_prop (heap w) (get env w ''metadata'') ''start_time'' = Inr (Num (Fin 100)) \<and>
    get_prop (heap w) (get env w ''metadata'') ''end_time'' = Inr (Num (Fin 200)) \<and>
    TIME_WINDOW env = Num (Fin 5) \<longrightarrow>
      get env (snd (seek env (Num (Fin 50)) w)) ''timestamp'' = Num (Fin 105) \<and>
      get env (snd (seek env (Num (Fin 500)) w)) ''timestamp'' = Num (Fin 200) \<and>
      get env (snd (seek env (Num (Fin 150)) w)) ''timestamp'' = Num (Fin 150))"
proof -
  have key: "''timestamp'' \<noteq> ''__proto__''"
    by simp
  have general: "fst (seek env x w) = Inr () \<and>
      get env (snd (seek env x w)) ''timestamp'' =
        clamp env x
          (memoized w LogStartTime [get env w ''metadata''] (plus env st (TIME_WINDOW env)))
          (memoized w LogEndTime [get env w ''metadata''] en) \<and>
      (bounds_cached env w \<longrightarrow>
         get env (snd (seek env x w)) ''timestamp'' =
           clamp env x (plus env st (TIME_WINDOW env)) en)"
    if t: "truthy (get env w ''metadata'')"
      and st: "get_prop (heap w) (get env w ''metadata'') ''start_time'' = Inr st"
      and en: "get_prop (heap w) (get env w ''metadata'') ''end_time'' = Inr en"
    for st en x
  proof -
    from seek_with_metadata [OF t st en, of x] obtain c where
      s: "seek env x w =
           (Inr (), set' env ''timestamp''
              (clamp env x
                 (memoized w LogStartTime [get env w ''metadata''] (plus env st (TIME_WINDOW env)))
                 (memoized w LogEndTime [get env w ''metadata''] en))
              (w\<lparr>cache := c\<rparr>))"
      by blast
    have stored: "get env (snd (seek env x w)) ''timestamp'' =
        clamp env x
          (memoized w LogStartTime [get env w ''metadata''] (plus env st (TIME_WINDOW env)))
          (memoized w LogEndTime [get env w ''metadata''] en)"
      by (simp add: s get_set'_same [OF key])
    have fresh: "memoized w LogStartTime [get env w ''metadata''] (plus env st (TIME_WINDOW env)) =
          plus env st (TIME_WINDOW env) \<and>
        memoized w LogEndTime [get env w ''metadata''] en = en"
      if ok: "bounds_cached env w"
    proof -
      have fs: "getLogStartTime_fn env (get env w ''metadata'') (heap w) =
          (Inr (plus env st (TIME_WINDOW env)), heap w)"
        using t st by (simp add: getLogStartTime_fn_def)
      have fe: "getLogEndTime_fn (get env w ''metadata'') (heap w) = (Inr en, heap w)"
        using t en by (simp add: getLogEndTime_fn_def)
      from memoized_start_fresh [OF ok fs] memoized_end_fresh [OF ok fe] show ?thesis
        by simp
    qed
    from s have ok: "fst (seek env x w) = Inr ()"
      by simp
    from stored fresh have "bounds_cached env w \<longrightarrow>
        get env (snd (seek env x w)) ''timestamp'' =
          clamp env x (plus env st (TIME_WINDOW env)) en"
      by auto
    with ok stored show ?thesis
      by blast
  qed
  have absent: "\<not> truthy (get env w ''metadata'') \<Longrightarrow>
      fst (seek env t w) = Inr () \<and> get env (snd (seek env t w)) ''timestamp'' = t"
    by (simp add: seek_def get_set'_same [OF key])
  have present: "truthy (get env w ''metadata'') \<Longrightarrow>
      fst (seek env t w) = Inr () \<and>
      (\<exists>start_time end_time.
         get_prop (heap w) (get env w ''metadata'') ''start_time'' = Inr start_time \<and>
         get_prop (heap w) (get env w ''metadata'') ''end_time'' = Inr end_time \<and>
         get env (snd (seek env t w)) ''timestamp'' =
           clamp env t
             (memoized w LogStartTime [get env w ''metadata'']
                (plus env start_time (TIME_WINDOW env)))
             (memoized w LogEndTime [get env w ''metadata''] end_time) \<and>
         (bounds_cached env w \<longrightarrow>
            get env (snd (seek env t w)) ''timestamp'' =
              clamp env t (plus env start_time (TIME_WINDOW env)) end_time))"
  proof -
    assume t: "truthy (get env w ''metadata'')"
    from truthy_get_prop [OF t, of "heap w" "''start_time''"] obtain st where
      st: "get_prop (heap w) (get env w ''metadata'') ''start_time'' = Inr st"
      by blast
    from truthy_get_prop [OF t, of "heap w" "''end_time''"] obtain en where
      en: "get_prop (heap w) (get env w ''metadata'') ''end_time'' = Inr en"
      by blast
    from general [OF t st en, of t] st en show ?thesis
      by blast
  qed
  have example: "clamp env (Num (Fin 50)) (plus env (Num (Fin 100)) (Num (Fin 5))) (Num (Fin 200)) = Num (Fin 105) \<and>
      clamp env (Num (Fin 500)) (plus env (Num (Fin 100)) (Num (Fin 5))) (Num (Fin 200)) = Num (Fin 200) \<and>
      clamp env (Num (Fin 150)) (plus env (Num (Fin 100)) (Num (Fin 5))) (Num (Fin 200)) = Num (Fin 150)"
    by (simp add: clamp_def plus_def numeric_def Number_def Math_max_def Math_min_def)
  have examples: "get env (snd (seek env (Num (Fin 50)) w)) ''timestamp'' = Num (Fin 105) \<and>
      get env (snd (seek env (Num (Fin 500)) w)) ''timestamp'' = Num (Fin 200) \<and>
      get env (snd (seek env (Num (Fin 150)) w)) ''timestamp'' = Num (Fin 150)"
    if "bounds_cached env w \<and> truthy (get env w ''metadata'') \<and>
      get_prop (heap w) (get env w ''metadata'') ''start_time'' = Inr (Num (Fin 100)) \<and>
      get_prop (heap w) (get env w ''metadata'') ''end_time'' = Inr (Num (Fin 200)) \<and>
      TIME_WINDOW env = Num (Fin 5)"
  proof -
    from that have ok: "bounds_cached env w" and t: "truthy (get env w ''metadata'')"
      and st: "get_prop (heap w) (get env w ''metadata'') ''start_time'' = Inr (Num (Fin 100))"
      and en: "get_prop (heap w) (get env w ''metadata'') ''end_time'' = Inr (Num (Fin 200))"
      and tw: "TIME_WINDOW env = Num (Fin 5)"
      by auto
    have "get env (snd (seek env x w)) ''timestamp'' =
        clamp env x (plus env (Num (Fin 100)) (Num (Fin 5))) (Num (Fin 200))" for x
      using general [OF t st en, of x] ok tw by auto
    with example show ?thesis
      by simp
  qed
  show ?thesis
  proof (cases "truthy (get env w ''metadata'')")
    case True
    with present examples show ?thesis by blast
  next
    case False
    with absent show ?thesis by blast
  qed
qed

lemma opened_eval:
  "opened =
     \<lparr>state = [(''metadata'', Ref 0), (''timestamp'', Num (Fin 105))], prototype = Ref 100,
      version = 2, listeners = [], trace = [], heap = log_heap,
      cache = ((\<lambda>s. None)(LogStartTime \<mapsto> ([Ref 0], Num (Fin 105)),
                           LogEndTime \<mapsto> ([Ref 0], Num (Fin 200))))\<rparr>"
  by (simp add: opened_def log_heap_def plain_env_def loader_defs)

theorem seek_stores_clamped_witness:
  "bounds_cached plain_env opened \<and> truthy (get plain_env opened ''metadata'') \<and>
   get_prop (heap opened) (get plain_env opened ''metadata'') ''start_time'' = Inr (Num (Fin 100)) \<and>
   get_prop (heap opened) (get plain_env opened ''metadata'') ''end_time'' = Inr (Num (Fin 200)) \<and>
   TIME_WINDOW plain_env = Num (Fin 5) \<and>
   get plain_env (snd (seek plain_env (Num (Fin 50)) opened)) ''timestamp'' = Num (Fin 105) \<and>
   get plain_env (snd (seek plain_env (Num (Fin 500)) opened)) ''timestamp'' = Num (Fin 200) \<and>
   get plain_env (snd (seek plain_env (Num (Fin 150)) opened)) ''timestamp'' = Num (Fin 150) \<and>
   \<not> truthy (get plain_env (constructor plain_env []) ''metadata'') \<and>
   get plain_env (snd (seek plain_env (Num (Fin 42)) (constructor plain_env []))) ''timestamp'' =
     Num (Fin 42)"
proof -
  have ok: "bounds_cached plain_env opened"
    unfolding opened_def by (rule setMetadata_keeps_bounds_cached [OF constructor_bounds_cached])
  have m: "truthy (get plain_env opened ''metadata'')"
    by (simp add: opened_eval get_def truthy_def)
  have st: "get_prop (heap opened) (get plain_env opened ''metadata'') ''start_time'' = Inr (Num (Fin 100))"
    by (simp add: opened_eval get_def get_prop_def cell_at_def own_get_def prop_get_def log_heap_def)
  have en: "get_prop (heap opened) (get plain_env opened ''metadata'') ''end_time'' = Inr (Num (Fin 200))"
    by (simp add: opened_eval get_def get_prop_def cell_at_def own_get_def prop_get_def log_heap_def)
  have tw: "TIME_WINDOW plain_env = Num (Fin 5)"
    by (simp add: plain_env_def)
  have m0: "\<not> truthy (get plain_env (constructor plain_env []) ''metadata'')"
    by (simp add: plain_env_def loader_defs)
  from seek_stores_clamped [of plain_env "Num (Fin 0)" opened] ok m st en tw
  have "get plain_env (snd (seek plain_env (Num (Fin 50)) opened)) ''timestamp'' = Num (Fin 105) \<and>
    get plain_env (snd (seek plain_env (Num (Fin 500)) opened)) ''timestamp'' = Num (Fin 200) \<and>
    get plain_env (snd (seek plain_env (Num (Fin 150)) opened)) ''timestamp'' = Num (Fin 150)"
    by blast
  moreover from seek_stores_clamped [of plain_env "Num (Fin 42)" "constructor plain_env []"] m0
  have "get plain_env (snd (seek plain_env (Num (Fin 42)) (constructor plain_env []))) ''timestamp'' =
      Num (Fin 42)"
    by blast
  ultimately show ?thesis
    using ok m st en tw m0 by blast
qed

text \<open>
  C2 as the specification words it clamps into the bounds the metadata has now. The
  loader reads the bounds through memoized selectors, which recompute only when the
  metadata value under the key is another one. After \<open>_setMetadata\<close> with a log from 100
  to 200 the cached start is 105; when the same metadata object is then given the start
  time 0, \<open>seek(50)\<close> still leaves 105, where \<open>clamp(50, 0 + 5, 200)\<close> is 50.
\<close>

theorem seek_stale_bounds_counterexample:
  "reachable plain_env rewritten \<and>
   truthy (get plain_env rewritten ''metadata'') \<and>
   get_prop (heap rewritten) (get plain_env rewritten ''metadata'') ''start_time'' = Inr (Num (Fin 0)) \<and>
   get_prop (heap rewritten) (get plain_env rewritten ''metadata'') ''end_time'' = Inr (Num (Fin 200)) \<and>
   TIME_WINDOW plain_env = Num (Fin 5) \<and>
   clamp plain_env (Num (Fin 50)) (plus plain_env (Num (Fin 0)) (TIME_WINDOW plain_env)) (Num (Fin 200)) =
     Num (Fin 50) \<and>
   get plain_env (snd (seek plain_env (Num (Fin 50)) rewritten)) ''timestamp'' = Num (Fin 105)"
proof -
  have "reachable plain_env rewritten"
    unfolding rewritten_def opened_def
    by (intro reachable.outside reachable.setMetadata reachable.new)
  moreover have "truthy (get plain_env rewritten ''metadata'')"
    by (simp add: rewritten_def opened_eval get_def truthy_def)
  moreover have
    "get_prop (heap rewritten) (get plain_env rewritten ''metadata'') ''start_time'' = Inr (Num (Fin 0))"
    "get_prop (heap rewritten) (get plain_env rewritten ''metadata'') ''end_time'' = Inr (Num (Fin 200))"
    by (simp_all add: rewritten_def opened_eval get_def get_prop_def cell_at_def own_get_def prop_get_def)
  moreover have "TIME_WINDOW plain_env = Num (Fin 5)"
    by (simp add: plain_env_def)
  moreover have
    "clamp plain_env (Num (Fin 50)) (plus plain_env (Num (Fin 0)) (TIME_WINDOW plain_env)) (Num (Fin 200)) =
       Num (Fin 50)"
    by (simp add: plain_env_def clamp_def plus_def numeric_def Number_def Math_max_def Math_min_def)
  moreover have
    "get plain_env (snd (seek plain_env (Num (Fin 50)) rewritten)) ''timestamp'' = Num (Fin 105)"
    by (simp add: rewritten_def opened_eval plain_env_def loader_defs)
  ultimately show ?thesis
    by blast
qed

section \<open>Properties of the current frame\<close>

lemma getCurrentFrame_inputs:
  "eval_inputs [getLogSynchronizer env, getMetadata env, getCurrentTime env] w = (Inr (frame_inputs env w), w)"
  by (simp add: frame_inputs_def getLogSynchronizer_def getMetadata_def getCurrentTime_def)

lemma getCurrentFrame_hit:
  "cache w CurrentFrame = Some (prev, r) \<Longrightarrow> same_inputs prev (frame_inputs env w) \<Longrightarrow>
     getCurrentFrame env w = (Inr r, w)"
  by (simp add: getCurrentFrame_def createSelector_def getCurrentFrame_inputs del: eval_inputs.simps)

lemma getCurrentFrame_miss:
  "inputs_changed w CurrentFrame (frame_inputs env w) \<Longrightarrow>
     getCurrentFrame env w =
       recomputed CurrentFrame (\<lambda>ins. getCurrentFrame_fn env (ins ! 0) (ins ! 1) (ins ! 2))
         (frame_inputs env w) w"
  by (auto simp: getCurrentFrame_def createSelector_def getCurrentFrame_inputs inputs_changed_def
      simp del: eval_inputs.simps split: option.splits)

lemma getCurrentFrame_absent:
  assumes ok: "frame_cached w"
    and no: "\<not> (truthy (get env w ''logSynchronizer'') \<and> truthy (get env w ''metadata'') \<and>
                isFinite (get env w ''timestamp''))"
  shows "fst (getCurrentFrame env w) = Inr Null \<and> heap (snd (getCurrentFrame env w)) = heap w"
proof (cases "inputs_changed w CurrentFrame (frame_inputs env w)")
  case True
  from no have "getCurrentFrame_fn env (get env w ''logSynchronizer'') (get env w ''metadata'')
      (get env w ''timestamp'') (heap w) = (Inr Null, heap w)"
    by (auto simp: getCurrentFrame_fn_def)
  then show ?thesis
    by (simp add: getCurrentFrame_miss [OF True] recomputed_def frame_inputs_def)
next
  case False
  then obtain prev r where c: "cache w CurrentFrame = Some (prev, r)"
    and s: "same_inputs prev (frame_inputs env w)"
    by (auto simp: inputs_changed_def split: option.splits)
  from s have "prev = frame_inputs env w" by (rule same_inputs_imp_eq)
  with ok c no have "r = Null"
    by (auto simp: frame_cached_def frame_inputs_def)
  with getCurrentFrame_hit [OF c s] show ?thesis by simp
qed

lemma getCurrentFrame_keeps_frame_cached:
  assumes ok: "frame_cached w"
  shows "frame_cached (snd (getCurrentFrame env w))"
proof (cases "inputs_changed w CurrentFrame (frame_inputs env w)")
  case True
  obtain res h where fn: "getCurrentFrame_fn env (get env w ''logSynchronizer'') (get env w ''metadata'')
      (get env w ''timestamp'') (heap w) = (res, h)"
    by (cases "getCurrentFrame_fn env (get env w ''logSynchronizer'') (get env w ''metadata'')
      (get env w ''timestamp'') (heap w)")
  show ?thesis
  proof (cases res)
    case (Inl e)
    with fn ok show ?thesis
      by (simp add: getCurrentFrame_miss [OF True] recomputed_def frame_inputs_def frame_cached_def)
  next
    case (Inr r)
    have "truthy (get env w ''logSynchronizer'') \<and> truthy (get env w ''metadata'') \<and>
        isFinite (get env w ''timestamp'') \<or> r = Null"
      using fn Inr by (auto simp: getCurrentFrame_fn_def split: if_splits)
    with fn Inr show ?thesis
      by (simp add: getCurrentFrame_miss [OF True] recomputed_def frame_inputs_def frame_cached_def)
  qed
next
  case False
  then obtain prev r where c: "cache w CurrentFrame = Some (prev, r)"
    and s: "same_inputs prev (frame_inputs env w)"
    by (auto simp: inputs_changed_def split: option.splits)
  with getCurrentFrame_hit [OF c s] ok show ?thesis by simp
qed

lemma eval_inputs_slot:
  assumes ins: "\<And>d w. d \<in> set ds \<Longrightarrow> cache (snd (d w)) s = cache w s"
  shows "cache (snd (eval_inputs ds w)) s = cache w s"
  using ins
proof (induction ds arbitrary: w)
  case Nil
  then show ?case by simp
next
  case (Cons d ds)
  obtain r w1 where d: "d w = (r, w1)" by (cases "d w")
  from Cons.prems [of d w] d have c1: "cache w1 s = cache w s" by simp
  from Cons.IH [of w1] Cons.prems have c2: "cache (snd (eval_inputs ds w1)) s = cache w1 s"
    by simp
  from d c1 c2 show ?case
    by (auto split: prod.splits sum.splits)
qed

lemma createSelector_slot:
  assumes other: "s \<noteq> name"
    and ins: "\<And>d w. d \<in> set ds \<Longrightarrow> cache (snd (d w)) s = cache w s"
  shows "cache (snd (createSelector name ds fn w)) s = cache w s"
proof -
  obtain r w1 where e: "eval_inputs ds w = (r, w1)" by (cases "eval_inputs ds w")
  have "cache (snd (eval_inputs ds w)) s = cache w s"
    by (rule eval_inputs_slot) (rule ins)
  with e have c1: "cache w1 s = cache w s"
    by simp
  have "cache (snd (recomputed name fn vs w1)) s = cache w1 s" for vs
    using other by (auto simp: recomputed_def split: prod.splits sum.splits)
  with e c1 show ?thesis
    by (auto simp: createSelector_def split: sum.splits option.splits)
qed

lemma getter_slot:
  "cache (snd (getMetadata env w)) s = cache w s" "cache (snd (getStreams env w)) s = cache w s"
  "cache (snd (getCurrentTime env w)) s = cache w s" "cache (snd (getLogSynchronizer env w)) s = cache w s"
  by (simp_all add: getMetadata_def getStreams_def getCurrentTime_def getLogSynchronizer_def)

lemma bounds_slot:
  "s \<noteq> LogStartTime \<Longrightarrow> cache (snd (getLogStartTime env w)) s = cache w s"
  "s \<noteq> LogEndTime \<Longrightarrow> cache (snd (getLogEndTime env w)) s = cache w s"
proof -
  show "s \<noteq> LogStartTime \<Longrightarrow> cache (snd (getLogStartTime env w)) s = cache w s"
    unfolding getLogStartTime_def by (rule createSelector_slot) (auto simp: getter_slot)
  show "s \<noteq> LogEndTime \<Longrightarrow> cache (snd (getLogEndTime env w)) s = cache w s"
    unfolding getLogEndTime_def by (rule createSelector_slot) (auto simp: getter_slot)
qed

lemma names_stamps_slot:
  "s \<noteq> Timestamps \<Longrightarrow> cache (snd (getTimestamps env w)) s = cache w s"
  "s \<noteq> ImageStreamNames \<Longrightarrow> cache (snd (getImageStreamNames env w)) s = cache w s"
proof -
  show "s \<noteq> Timestamps \<Longrightarrow> cache (snd (getTimestamps env w)) s = cache w s"
    unfolding getTimestamps_def by (rule createSelector_slot) (auto simp: getter_slot)
  show "s \<noteq> ImageStreamNames \<Longrightarrow> cache (snd (getImageStreamNames env w)) s = cache w s"
    unfolding getImageStreamNames_def by (rule createSelector_slot) (auto simp: getter_slot)
qed

lemma read_selector_frame_slot:
  "name \<noteq> CurrentFrame \<Longrightarrow>
     cache (snd (read_selector env name w)) CurrentFrame = cache w CurrentFrame"
proof (cases name)
  case TimeDomain
  have "cache (snd (getTimeDomain env w)) CurrentFrame = cache w CurrentFrame"
    unfolding getTimeDomain_def
    by (rule createSelector_slot) (auto simp: bounds_slot)
  with TimeDomain show ?thesis by (simp add: read_selector_def)
next
  case ImageFrames
  have "cache (snd (getImageFrames env w)) CurrentFrame = cache w CurrentFrame"
    unfolding getImageFrames_def
    by (rule createSelector_slot) (auto simp: names_stamps_slot getter_slot)
  with ImageFrames show ?thesis by (simp add: read_selector_def)
qed (simp_all add: read_selector_def bounds_slot names_stamps_slot)

lemma seek_frame_slot: "cache (snd (seek env t w)) CurrentFrame = cache w CurrentFrame"
proof (cases "truthy (get env w ''metadata'')")
  case False
  then show ?thesis by (simp add: seek_def set'_heap_cache)
next
  case True
  obtain r1 w1 where s1: "getLogStartTime env w = (r1, w1)"
    by (cases "getLogStartTime env w")
  obtain r2 w2 where s2: "getLogEndTime env w1 = (r2, w2)"
    by (cases "getLogEndTime env w1")
  from s1 bounds_slot(1) [of CurrentFrame env w] have c1: "cache w1 CurrentFrame = cache w CurrentFrame"
    by simp
  from s2 bounds_slot(2) [of CurrentFrame env w1] have c2: "cache w2 CurrentFrame = cache w1 CurrentFrame"
    by simp
  show ?thesis
  proof (cases r1)
    case (Inl e)
    with True s1 c1 show ?thesis by (simp add: seek_def)
  next
    case st: (Inr st)
    show ?thesis
    proof (cases r2)
      case (Inl e)
      with True s1 s2 st c1 c2 show ?thesis by (simp add: seek_def)
    next
      case (Inr en)
      with True s1 s2 st c1 c2 show ?thesis by (simp add: seek_def set'_heap_cache)
    qed
  qed
qed

lemma frame_cached_cong: "cache w' CurrentFrame = cache w CurrentFrame \<Longrightarrow> frame_cached w' = frame_cached w"
  by (simp add: frame_cached_def)

text \<open>The cache of \<open>getCurrentFrame\<close> is as reads leave it in every state of the loader.\<close>

lemma reachable_frame_cached: "reachable env w \<Longrightarrow> frame_cached w"
proof (induction rule: reachable.induct)
  case (new h)
  show ?case by (simp add: frame_cached_def constructor_def)
next
  case (subscribe w l)
  then show ?case by (simp add: frame_cached_def subscribe_def)
next
  case (unsubscribe w l)
  then show ?case by (simp add: frame_cached_def unsubscribe_def)
next
  case (set w k v)
  then show ?case by (simp add: frame_cached_def set'_heap_cache)
next
  case (seek w t)
  with frame_cached_cong [OF seek_frame_slot, of env t w] show ?case by simp
next
  case (setMetadata w m)
  have "cache (snd (setMetadata env m w)) CurrentFrame = cache w CurrentFrame"
    by (simp add: setMetadata_def Let_def seek_frame_slot set'_heap_cache split: sum.splits)
  from frame_cached_cong [OF this] setMetadata show ?case by simp
next
  case (read w name)
  show ?case
  proof (cases "name = CurrentFrame")
    case True
    with read getCurrentFrame_keeps_frame_cached [of w env] show ?thesis
      by (simp add: read_selector_def)
  next
    case False
    from frame_cached_cong [OF read_selector_frame_slot [OF False]] read show ?thesis
      by simp
  qed
next
  case (outside w h)
  then show ?case by (simp add: frame_cached_def)
qed

text \<open>
  C3, as the code has it. In every state of the loader the selector returns \<open>null\<close>,
  and calls nothing, unless the synchronizer and the metadata are present (truthy) and
  the timestamp is a finite number. When they are and one of the three has changed
  since the last recomputation, it calls \<open>setTime\<close> of the synchronizer with the
  timestamp, then \<open>getCurrentFrame\<close> with the \<open>streams\<close> of the metadata, and returns what
  that call returns (an exception of \<open>setTime\<close> is passed on). When none has changed, it
  returns the cached result and calls nothing.
\<close>

theorem current_frame_delegates_on_change:
  "(reachable env w \<and>
    \<not> (truthy (get env w ''logSynchronizer'') \<and> truthy (get env w ''metadata'') \<and>
       isFinite (get env w ''timestamp'')) \<longrightarrow>
      fst (getCurrentFrame env w) = Inr Null \<and> heap (snd (getCurrentFrame env w)) = heap w) \<and>
   (truthy (get env w ''logSynchronizer'') \<and> truthy (get env w ''metadata'') \<and>
    isFinite (get env w ''timestamp'') \<and> inputs_changed w CurrentFrame (frame_inputs env w) \<longrightarrow>
      (\<forall>u h1 streams.
         invoke env (get env w ''logSynchronizer'') ''setTime'' [get env w ''timestamp''] (heap w) = (Inr u, h1) \<and>
         get_prop h1 (get env w ''metadata'') ''streams'' = Inr streams \<longrightarrow>
           fst (getCurrentFrame env w) =
             fst (invoke env (get env w ''logSynchronizer'') ''getCurrentFrame'' [streams] h1) \<and>
           heap (snd (getCurrentFrame env w)) =
             snd (invoke env (get env w ''logSynchronizer'') ''getCurrentFrame'' [streams] h1)) \<and>
      (\<forall>e h1.
         invoke env (get env w ''logSynchronizer'') ''setTime'' [get env w ''timestamp''] (heap w) = (Inl e, h1) \<longrightarrow>
           fst (getCurrentFrame env w) = Inl e \<and> heap (snd (getCurrentFrame env w)) = h1)) \<and>
   (\<forall>prev r. cache w CurrentFrame = Some (prev, r) \<and> same_inputs prev (frame_inputs env w) \<longrightarrow>
      getCurrentFrame env w = (Inr r, w))"
proof (intro conjI impI allI)
  assume a: "reachable env w \<and>
    \<not> (truthy (get env w ''logSynchronizer'') \<and> truthy (get env w ''metadata'') \<and>
       isFinite (get env w ''timestamp''))"
  then have "reachable env w" by blast
  then have "frame_cached w" by (rule reachable_frame_cached)
  with a getCurrentFrame_absent [of w env]
  show "fst (getCurrentFrame env w) = Inr Null" and "heap (snd (getCurrentFrame env w)) = heap w"
    by blast+
next
  fix u h1 streams
  assume g: "truthy (get env w ''logSynchronizer'') \<and> truthy (get env w ''metadata'') \<and>
    isFinite (get env w ''timestamp'') \<and> inputs_changed w CurrentFrame (frame_inputs env w)"
    and c: "invoke env (get env w ''logSynchronizer'') ''setTime'' [get env w ''timestamp''] (heap w) = (Inr u, h1) \<and>
         get_prop h1 (get env w ''metadata'') ''streams'' = Inr streams"
  from g have miss: "inputs_changed w CurrentFrame (frame_inputs env w)" by blast
  from g c show "fst (getCurrentFrame env w) =
             fst (invoke env (get env w ''logSynchronizer'') ''getCurrentFrame'' [streams] h1)"
    and "heap (snd (getCurrentFrame env w)) =
             snd (invoke env (get env w ''logSynchronizer'') ''getCurrentFrame'' [streams] h1)"
    by (auto simp: getCurrentFrame_miss [OF miss] recomputed_def frame_inputs_def
        getCurrentFrame_fn_def split: prod.splits sum.splits)
next
  fix e h1
  assume g: "truthy (get env w ''logSynchronizer'') \<and> truthy (get env w ''metadata'') \<and>
    isFinite (get env w ''timestamp'') \<and> inputs_changed w CurrentFrame (frame_inputs env w)"
    and c: "invoke env (get env w ''logSynchronizer'') ''setTime'' [get env w ''timestamp''] (heap w) = (Inl e, h1)"
  from g have miss: "inputs_changed w CurrentFrame (frame_inputs env w)" by blast
  from g c show "fst (getCurrentFrame env w) = Inl e" and "heap (snd (getCurrentFrame env w)) = h1"
    by (auto simp: getCurrentFrame_miss [OF miss] recomputed_def frame_inputs_def
        getCurrentFrame_fn_def split: prod.splits sum.splits)
next
  fix prev r
  assume "cache w CurrentFrame = Some (prev, r) \<and> same_inputs prev (frame_inputs env w)"
  then show "getCurrentFrame env w = (Inr r, w)"
    using getCurrentFrame_hit by blast
qed

lemma playing_eval:
  "playing =
     \<lparr>state = [(''metadata'', Ref 1), (''timestamp'', Num (Fin 105)), (''logSynchronizer'', Ref 0)],
      prototype = Ref 100,
      version = 3, listeners = [], trace = [], heap = player_heap,
      cache = ((\<lambda>s. None)(LogStartTime \<mapsto> ([Ref 1], Num (Fin 105)),
                           LogEndTime \<mapsto> ([Ref 1], Num (Fin 200))))\<rparr>"
  by (simp add: playing_def player_heap_def counting_env_def plain_env_def loader_defs)

lemma played_eval:
  "played =
     \<lparr>state = [(''metadata'', Ref 1), (''timestamp'', Num (Fin 105)), (''logSynchronizer'', Ref 0)],
      prototype = Ref 100,
      version = 3, listeners = [], trace = [],
      heap = [Cell Plain [(''served'', Num (Fin 1)), (''time'', Num (Fin 105))],
              Cell Plain [(''start_time'', Num (Fin 100)), (''end_time'', Num (Fin 200)),
                          (''streams'', Ref 2)],
              Cell Plain []],
      cache = ((\<lambda>s. None)(LogStartTime \<mapsto> ([Ref 1], Num (Fin 105)),
                           LogEndTime \<mapsto> ([Ref 1], Num (Fin 200)),
                           CurrentFrame \<mapsto> ([Ref 0, Ref 1, Num (Fin 105)], Num (Fin 0))))\<rparr>"
  by (simp add: played_def playing_eval getCurrentFrame_def getCurrentFrame_fn_def player_heap_def
      counting_env_def plain_env_def loader_defs)

text \<open>
  C3 as the specification words it has every read delegate. After one read, with the
  synchronizer, the metadata and a finite time all stored, a second read returns the
  cached frame 0 and changes nothing, so the synchronizer is not called; asked, it would
  have produced frame 1.
\<close>

theorem current_frame_cached_counterexample:
  "truthy (get counting_env played ''logSynchronizer'') \<and> truthy (get counting_env played ''metadata'') \<and>
   isFinite (get counting_env played ''timestamp'') \<and>
   getCurrentFrame counting_env played = (Inr (Num (Fin 0)), played) \<and>
   fst (getCurrentFrame_fn counting_env (get counting_env played ''logSynchronizer'') (get counting_env played ''metadata'')
          (get counting_env played ''timestamp'') (heap played)) = Inr (Num (Fin 1))"
  by (simp add: played_eval getCurrentFrame_def getCurrentFrame_fn_def counting_env_def
      plain_env_def loader_defs)

theorem current_frame_delegates_on_change_witness:
  "reachable counting_env playing \<and> reachable counting_env played \<and>
   truthy (get counting_env playing ''logSynchronizer'') \<and> truthy (get counting_env playing ''metadata'') \<and>
   isFinite (get counting_env playing ''timestamp'') \<and> inputs_changed playing CurrentFrame (frame_inputs counting_env playing) \<and>
   fst (getCurrentFrame counting_env playing) = Inr (Num (Fin 0)) \<and>
   heap (snd (getCurrentFrame counting_env playing)) =
     [Cell Plain [(''served'', Num (Fin 1)), (''time'', Num (Fin 105))],
      Cell Plain [(''start_time'', Num (Fin 100)), (''end_time'', Num (Fin 200)),
                  (''streams'', Ref 2)],
      Cell Plain []] \<and>
   fst (getCurrentFrame plain_env playing) = Inl TypeError \<and>
   reachable counting_env (constructor counting_env []) \<and> \<not> truthy (get counting_env (constructor counting_env []) ''logSynchronizer'') \<and>
   fst (getCurrentFrame counting_env (constructor counting_env [])) = Inr Null \<and>
   same_inputs [Ref 0, Ref 1, Num (Fin 105)] (frame_inputs counting_env played) \<and>
   getCurrentFrame counting_env played = (Inr (Num (Fin 0)), played)"
proof -
  let ?h1 = "[Cell Plain [(''served'', Num (Fin 0)), (''time'', Num (Fin 105))],
      Cell Plain [(''start_time'', Num (Fin 100)), (''end_time'', Num (Fin 200)),
                  (''streams'', Ref 2)],
      Cell Plain []]"
  have ok: "reachable counting_env playing"
    unfolding playing_def by (intro reachable.set reachable.setMetadata reachable.new)
  from reachable.read [OF ok, of CurrentFrame] have ok1: "reachable counting_env played"
    by (simp add: played_def read_selector_def)
  have present: "truthy (get counting_env playing ''logSynchronizer'') \<and> truthy (get counting_env playing ''metadata'') \<and>
      isFinite (get counting_env playing ''timestamp'') \<and> inputs_changed playing CurrentFrame (frame_inputs counting_env playing)"
    by (simp add: playing_eval inputs_changed_def loader_defs)
  have setTime: "invoke counting_env (get counting_env playing ''logSynchronizer'') ''setTime''
      [get counting_env playing ''timestamp''] (heap playing) = (Inr Undefined, ?h1)"
    by (simp add: playing_eval player_heap_def counting_env_def loader_defs)
  have streams: "get_prop ?h1 (get counting_env playing ''metadata'') ''streams'' = Inr (Ref 2)"
    by (simp add: playing_eval loader_defs)
  have served: "invoke counting_env (get counting_env playing ''logSynchronizer'') ''getCurrentFrame'' [Ref 2] ?h1 =
      (Inr (Num (Fin 0)),
       [Cell Plain [(''served'', Num (Fin 1)), (''time'', Num (Fin 105))],
        Cell Plain [(''start_time'', Num (Fin 100)), (''end_time'', Num (Fin 200)),
                  (''streams'', Ref 2)],
        Cell Plain []])"
    by (simp add: playing_eval counting_env_def plain_env_def loader_defs)
  have present': "truthy (get plain_env playing ''logSynchronizer'') \<and>
      truthy (get plain_env playing ''metadata'') \<and> isFinite (get plain_env playing ''timestamp'') \<and>
      inputs_changed playing CurrentFrame (frame_inputs plain_env playing)"
    by (simp add: playing_eval inputs_changed_def loader_defs)
  have no_method: "invoke plain_env (get plain_env playing ''logSynchronizer'') ''setTime''
      [get plain_env playing ''timestamp''] (heap playing) = (Inl TypeError, heap playing)"
    by (simp add: playing_eval plain_env_def loader_defs)
  have ok0: "reachable counting_env (constructor counting_env [])"
    by (rule reachable.new)
  have absent: "\<not> truthy (get counting_env (constructor counting_env []) ''logSynchronizer'')"
    by (simp add: constructor_def loader_defs)
  have hit: "cache played CurrentFrame = Some ([Ref 0, Ref 1, Num (Fin 105)], Num (Fin 0)) \<and>
      same_inputs [Ref 0, Ref 1, Num (Fin 105)] (frame_inputs counting_env played)"
    by (simp add: played_eval frame_inputs_def loader_defs)
  note main = current_frame_delegates_on_change
  from main [of counting_env playing] present setTime streams served
  have c2: "fst (getCurrentFrame counting_env playing) = Inr (Num (Fin 0)) \<and>
      heap (snd (getCurrentFrame counting_env playing)) =
      [Cell Plain [(''served'', Num (Fin 1)), (''time'', Num (Fin 105))],
        Cell Plain [(''start_time'', Num (Fin 100)), (''end_time'', Num (Fin 200)),
                  (''streams'', Ref 2)],
        Cell Plain []]"
    by (metis fst_conv snd_conv)
  from main [of plain_env playing] present' no_method
  have c3: "fst (getCurrentFrame plain_env playing) = Inl TypeError"
    by blast
  from main [of counting_env "constructor counting_env []"] ok0 absent
  have c4: "fst (getCurrentFrame counting_env (constructor counting_env [])) = Inr Null"
    by blast
  from main [of counting_env played] hit
  have c5: "getCurrentFrame counting_env played = (Inr (Num (Fin 0)), played)"
    by blast
  from ok ok1 present c2 c3 ok0 absent c4 hit c5 show ?thesis
    by blast
qed


section \<open>Properties of reading a selector\<close>

lemma same_but_timestamp_refl: "same_but_timestamp c c"
  by (cases c) (simp add: same_but_timestamp_def)

lemma same_but_timestamp_trans:
  "same_but_timestamp c d \<Longrightarrow> same_but_timestamp d e \<Longrightarrow> same_but_timestamp c e"
  by (cases c; cases d; cases e) (simp add: same_but_timestamp_def)

lemma only_timestamps_refl: "n \<le> length h \<Longrightarrow> only_timestamps n h h"
  by (simp add: only_timestamps_def same_but_timestamp_refl)

lemma only_timestamps_trans:
  "only_timestamps n h h' \<Longrightarrow> only_timestamps n h' h'' \<Longrightarrow> only_timestamps n h h''"
  by (auto simp: only_timestamps_def intro: same_but_timestamp_trans)

lemma without_timestamp_prop_set:
  "without_timestamp (prop_set ps ''timestamp'' v) = without_timestamp ps"
  by (induction ps "''timestamp''" v rule: prop_set.induct) (auto simp: without_timestamp_def)

lemma length_set_prop: "length (set_prop h target key v) = length h"
  by (auto simp: set_prop_def split: jsval.splits cell.splits)

lemma only_timestamps_set_timestamp:
  "n \<le> length h \<Longrightarrow> only_timestamps n h (set_prop h target ''timestamp'' v)"
  by (auto simp: only_timestamps_def set_prop_def nth_list_update same_but_timestamp_def
      without_timestamp_prop_set same_but_timestamp_refl split: jsval.splits cell.splits)

lemma only_timestamps_set_new:
  "n \<le> length h \<Longrightarrow> n \<le> a \<Longrightarrow> only_timestamps n h (set_prop h (Ref a) key v)"
  by (auto simp: only_timestamps_def set_prop_def nth_list_update same_but_timestamp_refl
      split: cell.splits)

lemma only_timestamps_append: "n \<le> length h \<Longrightarrow> only_timestamps n h (h @ ext)"
  by (simp add: only_timestamps_def nth_append same_but_timestamp_refl)

lemma image_frame_writes:
  "snd (image_frame env stamps i frame h) = h \<or>
   (\<exists>img x. snd (image_frame env stamps i frame h) = set_prop h img ''timestamp'' x)"
proof (cases "get_prop h stamps (index_name i)")
  case (Inl e)
  then show ?thesis by (simp add: image_frame_def)
next
  case (Inr t)
  show ?thesis
  proof (cases "first_image h frame")
    case (Inl e)
    with Inr show ?thesis by (simp add: image_frame_def)
  next
    case img: (Inr img)
    show ?thesis
    proof (cases "truthy img")
      case True
      with Inr img have "snd (image_frame env stamps i frame h) =
          set_prop h img ''timestamp'' (Num (jdiv (Number env t) (Fin 1000)))"
        by (simp add: image_frame_def Let_def)
      then show ?thesis by blast
    next
      case False
      with Inr img show ?thesis by (simp add: image_frame_def)
    qed
  qed
qed

lemma image_frame_heap:
  assumes "n \<le> length h"
  shows "only_timestamps n h (snd (image_frame env stamps i frame h)) \<and>
     length (snd (image_frame env stamps i frame h)) = length h"
  using image_frame_writes [of env stamps i frame h] assms
  by (auto simp: only_timestamps_refl only_timestamps_set_timestamp length_set_prop)

lemma map_frames_heap:
  "n \<le> length h \<Longrightarrow>
     only_timestamps n h (snd (map_frames env stamps i frames h)) \<and>
     length (snd (map_frames env stamps i frames h)) = length h"
proof (induction frames arbitrary: i h)
  case Nil
  then show ?case by (simp add: only_timestamps_refl)
next
  case (Cons frame frames)
  let ?h1 = "snd (image_frame env stamps i frame h)"
  from image_frame_heap [OF Cons.prems, of env stamps i frame]
  have step: "only_timestamps n h ?h1" and len: "length ?h1 = length h"
    by auto
  from Cons.prems len have n1: "n \<le> length ?h1" by simp
  from Cons.IH [OF n1, of "Suc i"]
  have rest: "only_timestamps n ?h1 (snd (map_frames env stamps (Suc i) frames ?h1))"
    and len2: "length (snd (map_frames env stamps (Suc i) frames ?h1)) = length ?h1"
    by auto
  from only_timestamps_trans [OF step rest] step len len2 show ?case
    by (auto split: prod.splits sum.splits)
qed

lemma forEach_stream_heap:
  "n \<le> length h \<Longrightarrow> n \<le> a \<Longrightarrow>
     only_timestamps n h (snd (forEach_stream env (Ref a) streams stamps names h))"
proof (induction names arbitrary: h)
  case Nil
  then show ?case by (simp add: only_timestamps_refl)
next
  case (Cons streamName names)
  show ?case
  proof (cases "get_prop h streams (ToPropertyKey env streamName)")
    case (Inl e)
    with Cons.prems show ?thesis by (simp add: only_timestamps_refl)
  next
    case (Inr stream)
    show ?thesis
    proof (cases "array_of h stream")
      case (Inl e)
      with Inr Cons.prems show ?thesis by (simp add: only_timestamps_refl)
    next
      case entries: (Inr entries)
      obtain res h1 where m: "map_frames env stamps 0 entries h = (res, h1)"
        by (cases "map_frames env stamps 0 entries h")
      from map_frames_heap [OF Cons.prems(1), of env stamps 0 entries] m
      have s1: "only_timestamps n h h1" and len1: "length h1 = length h"
        by auto
      show ?thesis
      proof (cases res)
        case (Inl e)
        with Inr entries m s1 show ?thesis by simp
      next
        case images: (Inr images)
        let ?h2 = "h1 @ [Cell (Array images) []]"
        let ?h3 = "set_prop ?h2 (Ref a) (ToPropertyKey env streamName) (Ref (length h1))"
        from Cons.prems len1 have n2: "n \<le> length ?h2" by simp
        have s2: "only_timestamps n h1 ?h2"
          using Cons.prems len1 by (simp add: only_timestamps_append)
        have s3: "only_timestamps n ?h2 ?h3"
          using n2 Cons.prems(2) by (rule only_timestamps_set_new)
        have n3: "n \<le> length ?h3"
          using n2 by (simp add: length_set_prop)
        from Cons.IH [OF n3 Cons.prems(2)]
        have s4: "only_timestamps n ?h3 (snd (forEach_stream env (Ref a) streams stamps names ?h3))" .
        from only_timestamps_trans [OF only_timestamps_trans [OF only_timestamps_trans [OF s1 s2] s3] s4]
        show ?thesis
          using Inr entries m images by (simp add: alloc_def)
      qed
    qed
  qed
qed

lemma getImageFrames_fn_heap:
  "only_timestamps (length h) h (snd (getImageFrames_fn env names streams stamps h))"
proof (cases "truthy streams \<and> truthy names")
  case False
  then show ?thesis by (auto simp: getImageFrames_fn_def only_timestamps_refl)
next
  case True
  let ?h1 = "h @ [Cell Plain []]"
  have s1: "only_timestamps (length h) h ?h1"
    by (simp add: only_timestamps_append)
  show ?thesis
  proof (cases "array_of ?h1 names")
    case (Inl e)
    with True s1 show ?thesis by (simp add: getImageFrames_fn_def alloc_def)
  next
    case (Inr ns)
    have "only_timestamps (length h) ?h1
        (snd (forEach_stream env (Ref (length h)) streams stamps ns ?h1))"
      by (rule forEach_stream_heap) simp_all
    from only_timestamps_trans [OF s1 this] True Inr show ?thesis
      by (auto simp: getImageFrames_fn_def alloc_def split: prod.splits sum.splits)
  qed
qed

lemma extended_length: "extended h h' \<Longrightarrow> length h \<le> length h'"
proof -
  assume "extended h h'"
  then have "length (take (length h) h') = length h"
    by (simp add: extended_def)
  then show ?thesis by simp
qed

lemma extended_refl: "extended h h"
  by (simp add: extended_def)

lemma extended_append: "extended h (h @ ext)"
  by (simp add: extended_def)

lemma extended_trans: "extended a b \<Longrightarrow> extended b c \<Longrightarrow> extended a c"
proof -
  assume ab: "extended a b" and bc: "extended b c"
  from ab have le: "length a \<le> length b" by (rule extended_length)
  have "take (length a) c = take (length a) (take (length b) c)"
    using le by (simp add: min_def)
  also have "\<dots> = take (length a) b" using bc by (simp add: extended_def)
  also have "\<dots> = a" using ab by (simp add: extended_def)
  finally show ?thesis by (simp add: extended_def)
qed

lemma extended_touched: "extended h h' \<Longrightarrow> touched h h'"
proof -
  assume e: "extended h h'"
  then have le: "length h \<le> length h'" by (rule extended_length)
  have "\<forall>a<length h. h ! a = h' ! a"
  proof (intro allI impI)
    fix a assume "a < length h"
    then have "take (length h) h' ! a = h' ! a" by simp
    with e show "h ! a = h' ! a" by (simp add: extended_def)
  qed
  with le show ?thesis
    by (simp add: touched_def only_timestamps_def same_but_timestamp_refl)
qed

lemma touched_refl: "touched h h"
  by (simp add: touched_def only_timestamps_refl)

lemma touched_trans: "touched a b \<Longrightarrow> touched b c \<Longrightarrow> touched a c"
  unfolding touched_def only_timestamps_def
  by (auto intro: same_but_timestamp_trans)

lemma eval_inputs_keeps:
  assumes refl: "\<And>h. H h h" and trans: "\<And>a b c. H a b \<Longrightarrow> H b c \<Longrightarrow> H a c"
    and ins: "\<And>d w. d \<in> set ds \<Longrightarrow> store_kept w (snd (d w)) \<and> H (heap w) (heap (snd (d w)))"
  shows "store_kept w (snd (eval_inputs ds w)) \<and> H (heap w) (heap (snd (eval_inputs ds w)))"
  using ins
proof (induction ds arbitrary: w)
  case Nil
  then show ?case by (simp add: store_kept_def refl)
next
  case (Cons d ds)
  obtain r w1 where d: "d w = (r, w1)" by (cases "d w")
  from Cons.prems [of d w] d have k1: "store_kept w w1" and h1: "H (heap w) (heap w1)"
    by auto
  show ?case
  proof (cases r)
    case (Inl e)
    with d k1 h1 show ?thesis by simp
  next
    case (Inr v)
    from Cons.IH [of w1] Cons.prems
    have k2: "store_kept w1 (snd (eval_inputs ds w1))"
      and h2: "H (heap w1) (heap (snd (eval_inputs ds w1)))"
      by auto
    from k1 k2 have "store_kept w (snd (eval_inputs ds w1))"
      by (simp add: store_kept_def)
    moreover from trans [OF h1 h2] have "H (heap w) (heap (snd (eval_inputs ds w1)))" .
    ultimately show ?thesis
      using d Inr by (auto split: prod.splits sum.splits)
  qed
qed

lemma recomputed_keeps:
  assumes fn: "\<And>ins h. H h (snd (fn ins h))"
  shows "store_kept w (snd (recomputed name fn ins w)) \<and>
         H (heap w) (heap (snd (recomputed name fn ins w)))"
  using fn [of "heap w" ins]
  by (auto simp: recomputed_def store_kept_def split: prod.splits sum.splits)

lemma createSelector_keeps:
  assumes refl: "\<And>h. H h h" and trans: "\<And>a b c. H a b \<Longrightarrow> H b c \<Longrightarrow> H a c"
    and fn: "\<And>ins h. H h (snd (fn ins h))"
    and ins: "\<And>d w. d \<in> set ds \<Longrightarrow> store_kept w (snd (d w)) \<and> H (heap w) (heap (snd (d w)))"
  shows "store_kept w (snd (createSelector name ds fn w)) \<and>
         H (heap w) (heap (snd (createSelector name ds fn w)))"
proof -
  obtain r w1 where e: "eval_inputs ds w = (r, w1)" by (cases "eval_inputs ds w")
  have "store_kept w (snd (eval_inputs ds w)) \<and> H (heap w) (heap (snd (eval_inputs ds w)))"
  proof (rule eval_inputs_keeps [where H = H])
    show "H h h" for h by (rule refl)
    show "H a b \<Longrightarrow> H b c \<Longrightarrow> H a c" for a b c by (rule trans)
    show "store_kept w (snd (d w)) \<and> H (heap w) (heap (snd (d w)))" if "d \<in> set ds" for d w
      using that by (rule ins)
  qed
  with e have k1: "store_kept w w1" and h1: "H (heap w) (heap w1)"
    by auto
  show ?thesis
  proof (cases r)
    case (Inl err)
    with e k1 h1 show ?thesis by (simp add: createSelector_def)
  next
    case (Inr vs)
    have "store_kept w1 (snd (recomputed name fn vs w1)) \<and>
        H (heap w1) (heap (snd (recomputed name fn vs w1)))"
      by (rule recomputed_keeps [where H = H]) (rule fn)
    then have k2: "store_kept w1 (snd (recomputed name fn vs w1))"
      and h2: "H (heap w1) (heap (snd (recomputed name fn vs w1)))"
      by auto
    from k1 k2 have k: "store_kept w (snd (recomputed name fn vs w1))"
      by (simp add: store_kept_def)
    from trans [OF h1 h2] have h: "H (heap w) (heap (snd (recomputed name fn vs w1)))" .
    from e Inr k1 h1 k h show ?thesis
      by (auto simp: createSelector_def split: option.splits)
  qed
qed

lemma getter_keeps:
  "store_kept w (snd (getMetadata env w)) \<and> extended (heap w) (heap (snd (getMetadata env w)))"
  "store_kept w (snd (getStreams env w)) \<and> extended (heap w) (heap (snd (getStreams env w)))"
  "store_kept w (snd (getCurrentTime env w)) \<and> extended (heap w) (heap (snd (getCurrentTime env w)))"
  "store_kept w (snd (getLogSynchronizer env w)) \<and> extended (heap w) (heap (snd (getLogSynchronizer env w)))"
  by (simp_all add: getMetadata_def getStreams_def getCurrentTime_def getLogSynchronizer_def
      store_kept_def extended_refl)

lemma getLogStartTime_fn_extended: "extended h (snd (getLogStartTime_fn env m h))"
  using getLogStartTime_fn_Inr [of env m h] by (auto simp: extended_refl)

lemma getLogEndTime_fn_extended: "extended h (snd (getLogEndTime_fn m h))"
  using getLogEndTime_fn_Inr [of m h] by (auto simp: extended_refl)

lemma getTimeDomain_fn_extended: "extended h (snd (getTimeDomain_fn a b h))"
  by (simp add: getTimeDomain_fn_def alloc_def extended_append)

lemma getTimestamps_fn_extended: "extended h (snd (getTimestamps_fn streams h))"
  by (auto simp: getTimestamps_fn_def alloc_def extended_append extended_refl split: sum.splits)

lemma getImageStreamNames_fn_extended: "extended h (snd (getImageStreamNames_fn m h))"
  by (auto simp: getImageStreamNames_fn_def alloc_def extended_append extended_refl split: sum.splits)

lemma getLogStartTime_keeps:
  "store_kept w (snd (getLogStartTime env w)) \<and> extended (heap w) (heap (snd (getLogStartTime env w)))"
  unfolding getLogStartTime_def
  by (rule createSelector_keeps)
    (auto simp: extended_refl getLogStartTime_fn_extended getter_keeps intro: extended_trans)

lemma getLogEndTime_keeps:
  "store_kept w (snd (getLogEndTime env w)) \<and> extended (heap w) (heap (snd (getLogEndTime env w)))"
  unfolding getLogEndTime_def
  by (rule createSelector_keeps)
    (auto simp: extended_refl getLogEndTime_fn_extended getter_keeps intro: extended_trans)

lemma getTimeDomain_keeps:
  "store_kept w (snd (getTimeDomain env w)) \<and> extended (heap w) (heap (snd (getTimeDomain env w)))"
  unfolding getTimeDomain_def
  by (rule createSelector_keeps)
    (auto simp: extended_refl getTimeDomain_fn_extended getLogStartTime_keeps getLogEndTime_keeps
      intro: extended_trans)

lemma getTimestamps_keeps:
  "store_kept w (snd (getTimestamps env w)) \<and> extended (heap w) (heap (snd (getTimestamps env w)))"
  unfolding getTimestamps_def
  by (rule createSelector_keeps)
    (auto simp: extended_refl getTimestamps_fn_extended getter_keeps intro: extended_trans)

lemma getImageStreamNames_keeps:
  "store_kept w (snd (getImageStreamNames env w)) \<and>
   extended (heap w) (heap (snd (getImageStreamNames env w)))"
  unfolding getImageStreamNames_def
  by (rule createSelector_keeps)
    (auto simp: extended_refl getImageStreamNames_fn_extended getter_keeps intro: extended_trans)

lemma getImageFrames_keeps:
  "store_kept w (snd (getImageFrames env w)) \<and> touched (heap w) (heap (snd (getImageFrames env w)))"
  unfolding getImageFrames_def
proof (rule createSelector_keeps)
  show "touched h h" for h by (rule touched_refl)
  show "touched a b \<Longrightarrow> touched b c \<Longrightarrow> touched a c" for a b c by (rule touched_trans)
  show "touched h (snd (getImageFrames_fn env (ins ! 0) (ins ! 1) (ins ! 2) h))" for ins h
    unfolding touched_def by (rule getImageFrames_fn_heap)
  show "store_kept w (snd (d w)) \<and> touched (heap w) (heap (snd (d w)))"
    if "d \<in> set [getImageStreamNames env, getStreams env, getTimestamps env]" for d w
    using that getImageStreamNames_keeps [of w] getTimestamps_keeps [of w] getter_keeps(2) [of w]
    by (auto intro: extended_touched)
qed

lemma getCurrentFrame_keeps:
  "store_kept w (snd (getCurrentFrame env w))"
proof -
  have "store_kept w (snd (getCurrentFrame env w)) \<and> (\<lambda>h h'. True) (heap w) (heap (snd (getCurrentFrame env w)))"
    unfolding getCurrentFrame_def
    by (rule createSelector_keeps) (auto simp: getter_keeps)
  then show ?thesis by simp
qed

text \<open>
  C5, as the code has it. Reading a selector changes neither the values bound to the
  keys of the store (the properties of the state object and its prototype), nor the
  version counter, nor the list of listeners, and calls no listener. Reading a selector other than \<open>getCurrentFrame\<close> (whose effect on objects is
  that of the synchronizer's methods) loses no object and changes no property and no
  element of an object that was there before, the property \<open>timestamp\<close> apart; and
  only \<open>getImageFrames\<close> writes that property: the other selectors leave every object
  as it was and only allocate their results.
\<close>

theorem selectors_keep_the_store:
  "state (snd (read_selector env name w)) = state w \<and>
   prototype (snd (read_selector env name w)) = prototype w \<and>
   version (snd (read_selector env name w)) = version w \<and>
   listeners (snd (read_selector env name w)) = listeners w \<and>
   trace (snd (read_selector env name w)) = trace w \<and>
   (name \<noteq> CurrentFrame \<longrightarrow>
      length (heap w) \<le> length (heap (snd (read_selector env name w))) \<and>
      (\<forall>a<length (heap w).
         same_but_timestamp (heap w ! a) (heap (snd (read_selector env name w)) ! a))) \<and>
   (name \<noteq> CurrentFrame \<and> name \<noteq> ImageFrames \<longrightarrow>
      take (length (heap w)) (heap (snd (read_selector env name w))) = heap w)"
proof -
  have kept: "store_kept w (snd (read_selector env name w))"
    using getLogStartTime_keeps [of w env] getLogEndTime_keeps [of w] getCurrentFrame_keeps [of w env]
      getTimeDomain_keeps [of w env] getTimestamps_keeps [of w] getImageStreamNames_keeps [of w]
      getImageFrames_keeps [of w env]
    by (cases name) (simp_all add: read_selector_def)
  have ext: "extended (heap w) (heap (snd (read_selector env name w)))"
    if "name \<noteq> CurrentFrame \<and> name \<noteq> ImageFrames"
    using that getLogStartTime_keeps [of w env] getLogEndTime_keeps [of w]
      getTimeDomain_keeps [of w env] getTimestamps_keeps [of w] getImageStreamNames_keeps [of w]
    by (cases name) (simp_all add: read_selector_def)
  have tch: "touched (heap w) (heap (snd (read_selector env name w)))"
    if "name \<noteq> CurrentFrame"
  proof (cases "name = ImageFrames")
    case True
    with getImageFrames_keeps [of w env] show ?thesis by (simp add: read_selector_def)
  next
    case False
    with that ext show ?thesis by (auto intro: extended_touched)
  qed
  from kept ext tch show ?thesis
    by (auto simp: store_kept_def extended_def touched_def only_timestamps_def)
qed

lemma index_name_digit: "n < 10 \<Longrightarrow> index_name n = [digit_char n]"
  by (simp add: index_name.simps)

lemmas selector_defs =
  getImageFrames_def getImageStreamNames_def getTimestamps_def getImageFrames_fn_def
  getImageStreamNames_fn_def getTimestamps_fn_def Object_keys_def array_of_def alloc_def
  first_image_def image_frame_def ToPropertyKey_def index_name_digit digit_char_def

lemma image_frame_absent_entry:
  "\<not> truthy frame \<Longrightarrow> get_prop h stamps (index_name i) = Inr t \<Longrightarrow>
     image_frame env stamps i frame h = (Inr frame, h)"
  by (simp add: image_frame_def first_image_def)

text \<open>
  C4 fails on the code. The callback passes an absent entry through (the lemma above),
  but \<open>streams[streamName].map\<close> is called without a test of the stream: with \<open>cam\<close>
  declared by the metadata and absent from the streams, reading \<open>getImageFrames\<close> throws
  a \<open>TypeError\<close> and no stream is returned.
\<close>

theorem image_frames_missing_stream_fails:
  "truthy (get plain_env missing_stream ''metadata'') \<and> truthy (get plain_env missing_stream ''streams'') \<and>
   fst (getImageFrames plain_env missing_stream) = Inl TypeError"
  by (simp add: missing_stream_def missing_stream_heap_def plain_env_def selector_defs loader_defs)

text \<open>
  C5 as the specification words it has every read leave the stored objects unchanged.
  The image (10) is the first image of the first entry of the stream \<open>cam\<close> stored under
  \<open>streams\<close>; reading \<open>getImageFrames\<close> writes its property \<open>timestamp\<close>: 2000 / 1000.
\<close>

theorem image_frames_write_counterexample:
  "get plain_env camera_world ''streams'' = Ref 4 \<and>
   get_prop (heap camera_world) (Ref 4) ''cam'' = Inr (Ref 7) \<and>
   array_of (heap camera_world) (Ref 7) = Inr [Ref 8, Null] \<and>
   first_image (heap camera_world) (Ref 8) = Inr (Ref 10) \<and>
   heap camera_world ! 10 = Cell Plain [(''width'', Num (Fin 640))] \<and>
   heap (snd (getImageFrames plain_env camera_world)) ! 10 =
     Cell Plain [(''width'', Num (Fin 640)), (''timestamp'', Num (Fin 2))]"
  by (simp add: camera_world_def camera_heap_def subscribe_def plain_env_def selector_defs loader_defs)

lemma camera_world_heap: "heap camera_world = camera_heap"
  by (simp add: camera_world_def camera_heap_def subscribe_def plain_env_def loader_defs)

theorem selectors_keep_the_store_witness:
  "ImageFrames \<noteq> CurrentFrame \<and> Timestamps \<noteq> CurrentFrame \<and> Timestamps \<noteq> ImageFrames \<and>
   state (snd (getImageFrames plain_env camera_world)) = state camera_world \<and>
   version (snd (getImageFrames plain_env camera_world)) = version camera_world \<and>
   listeners (snd (getImageFrames plain_env camera_world)) = listeners camera_world \<and>
   trace (snd (getImageFrames plain_env camera_world)) = trace camera_world \<and>
   same_but_timestamp (heap camera_world ! 10) (heap (snd (getImageFrames plain_env camera_world)) ! 10) \<and>
   heap (snd (getImageFrames plain_env camera_world)) ! 10 =
     Cell Plain [(''width'', Num (Fin 640)), (''timestamp'', Num (Fin 2))] \<and>
   take 11 (heap (snd (getTimestamps plain_env camera_world))) = heap camera_world"
proof -
  have len: "length (heap camera_world) = 11"
    by (simp add: camera_world_heap camera_heap_def)
  from selectors_keep_the_store [of plain_env ImageFrames camera_world] len
  have frames: "state (snd (getImageFrames plain_env camera_world)) = state camera_world \<and>
      version (snd (getImageFrames plain_env camera_world)) = version camera_world \<and>
      listeners (snd (getImageFrames plain_env camera_world)) = listeners camera_world \<and>
      trace (snd (getImageFrames plain_env camera_world)) = trace camera_world \<and>
      same_but_timestamp (heap camera_world ! 10)
        (heap (snd (getImageFrames plain_env camera_world)) ! 10)"
    by (simp add: read_selector_def)
  from selectors_keep_the_store [of plain_env Timestamps camera_world] len
  have stamps: "take 11 (heap (snd (getTimestamps plain_env camera_world))) = heap camera_world"
    by (simp add: read_selector_def)
  have written: "heap (snd (getImageFrames plain_env camera_world)) ! 10 =
     Cell Plain [(''width'', Num (Fin 640)), (''timestamp'', Num (Fin 2))]"
    by (simp add: camera_world_def camera_heap_def subscribe_def plain_env_def selector_defs loader_defs)
  from frames stamps written show ?thesis
    by simp
qed

end

